theory Spec2Isabelle
  imports Main
begin

section \<open>Constants of main.go\<close>

definition maxTokens :: int where
  "maxTokens = 8000"

definition exitCommand :: string where
  "exitCommand = ''exit''"

definition maxRetries :: nat where
  "maxRetries = 3"

definition backoffFactor :: int where
  "backoffFactor = 2"

text \<open>Durations are counted in nanoseconds, as \<^verbatim>\<open>time.Duration\<close> does.\<close>

definition initialBackoff :: int where
  "initialBackoff = 1000000000"

definition maxConversationTokens :: int where
  "maxConversationTokens = 4000"

section \<open>Strings\<close>

text \<open>
  A Go string is a sequence of bytes; it is modelled as a \<^typ>\<open>string\<close>, one
  \<^typ>\<open>char\<close> per byte. \<^verbatim>\<open>strings.Fields\<close> and \<^verbatim>\<open>strings.TrimSpace\<close> read the
  string as UTF-8 and separate at the code points of \<^verbatim>\<open>unicode.IsSpace\<close>: U+0009
  to U+000D, U+0020, U+0085, U+00A0, U+1680, U+2000 to U+200A, U+2028, U+2029,
  U+202F, U+205F and U+3000. \<open>spaceRunes\<close> are their encodings.
\<close>

definition spaceRunes :: "string list" where
  "spaceRunes =
     [[CHR 0x09], [CHR 0x0A], [CHR 0x0B], [CHR 0x0C], [CHR 0x0D], [CHR 0x20],
      [CHR 0xC2, CHR 0x85], [CHR 0xC2, CHR 0xA0],
      [CHR 0xE1, CHR 0x9A, CHR 0x80],
      [CHR 0xE2, CHR 0x80, CHR 0x80], [CHR 0xE2, CHR 0x80, CHR 0x81],
      [CHR 0xE2, CHR 0x80, CHR 0x82], [CHR 0xE2, CHR 0x80, CHR 0x83],
      [CHR 0xE2, CHR 0x80, CHR 0x84], [CHR 0xE2, CHR 0x80, CHR 0x85],
      [CHR 0xE2, CHR 0x80, CHR 0x86], [CHR 0xE2, CHR 0x80, CHR 0x87],
      [CHR 0xE2, CHR 0x80, CHR 0x88], [CHR 0xE2, CHR 0x80, CHR 0x89],
      [CHR 0xE2, CHR 0x80, CHR 0x8A],
      [CHR 0xE2, CHR 0x80, CHR 0xA8], [CHR 0xE2, CHR 0x80, CHR 0xA9],
      [CHR 0xE2, CHR 0x80, CHR 0xAF],
      [CHR 0xE2, CHR 0x81, CHR 0x9F],
      [CHR 0xE3, CHR 0x80, CHR 0x80]]"

text \<open>
  The number of bytes of the first of the \<open>runes\<close> that the string begins with, and
  \<open>0\<close> when it begins with none. An encoding of a white space code point begins
  with a byte that no other code point has inside its encoding, so a string holds a
  white space code point at a place exactly when its bytes from there on begin with
  the encoding, also after bytes that are not UTF-8.
\<close>

definition runeWidth :: "string list \<Rightarrow> string \<Rightarrow> nat" where
  "runeWidth runes s =
     (case filter (\<lambda>r. r \<noteq> [] \<and> take (length r) s = r) runes of
        [] \<Rightarrow> 0
      | r # _ \<Rightarrow> length r)"

lemma runeWidth_pos:
  assumes "0 < runeWidth runes s"
  shows "take (runeWidth runes s) s \<in> set runes \<and> runeWidth runes s \<le> length s"
proof -
  obtain r rs where f: "filter (\<lambda>r. r \<noteq> [] \<and> take (length r) s = r) runes = r # rs"
    using assms by (auto simp: runeWidth_def split: list.splits)
  then have "r \<in> set (filter (\<lambda>r. r \<noteq> [] \<and> take (length r) s = r) runes)"
    by simp
  then have r: "r \<in> set runes" "take (length r) s = r"
    by auto
  have w: "runeWidth runes s = length r"
    using f by (simp add: runeWidth_def)
  have "length (take (length r) s) = length r"
    using r(2) by simp
  then have "length r \<le> length s"
    by simp
  then show ?thesis
    using r w by simp
qed

text \<open>
  \<^verbatim>\<open>strings.Fields\<close>: the maximal runs of bytes between white space code points, in
  order. The loop goes through the bytes; \<open>skip\<close> counts the bytes that are left of
  a white space code point, and \<open>cur\<close> is the field that is being read.
\<close>

fun splitFields :: "nat \<Rightarrow> string \<Rightarrow> string \<Rightarrow> string list" where
  "splitFields skip cur [] = (if cur = [] then [] else [cur])"
| "splitFields skip cur (c # cs) =
     (if 0 < skip then splitFields (skip - 1) cur cs
      else if 0 < runeWidth spaceRunes (c # cs) then
        (if cur = [] then splitFields (runeWidth spaceRunes (c # cs) - 1) [] cs
         else cur # splitFields (runeWidth spaceRunes (c # cs) - 1) [] cs)
      else splitFields 0 (cur @ [c]) cs)"

definition Fields :: "string \<Rightarrow> string list" where
  "Fields s = splitFields 0 [] s"

text \<open>The string without the \<open>runes\<close> that it begins with.\<close>

function trimRunes :: "string list \<Rightarrow> string \<Rightarrow> string" where
  "trimRunes runes s =
     (if 0 < runeWidth runes s then trimRunes runes (drop (runeWidth runes s) s) else s)"
  by pat_completeness auto
termination
proof (relation "measure (\<lambda>(runes, s). length s)")
  show "wf (measure (\<lambda>(runes, s). length s))"
    by simp
next
  fix runes :: "string list" and s :: string
  assume "0 < runeWidth runes s"
  then have "length s - runeWidth runes s < length s"
    using runeWidth_pos [of runes s] by arith
  then show "((runes, drop (runeWidth runes s) s), (runes, s))
      \<in> measure (\<lambda>(runes, s). length s)"
    by simp
qed

declare trimRunes.simps [simp del]

text \<open>
  \<^verbatim>\<open>strings.TrimSpace\<close>: the white space code points at the front are taken off, from
  the front, and then those at the end, from the end (the string ends with a code
  point when the string in reverse begins with the encoding in reverse).
\<close>

definition TrimSpace :: "string \<Rightarrow> string" where
  "TrimSpace s = rev (trimRunes (map rev spaceRunes) (rev (trimRunes spaceRunes s)))"

definition startsWithSpace :: "string \<Rightarrow> bool" where
  "startsWithSpace s = (0 < runeWidth spaceRunes s)"

definition endsWithSpace :: "string \<Rightarrow> bool" where
  "endsWithSpace s = (0 < runeWidth (map rev spaceRunes) (rev s))"

definition HasPrefix :: "string \<Rightarrow> string \<Rightarrow> bool" where
  "HasPrefix s p = (take (length p) s = p)"

definition TrimPrefix :: "string \<Rightarrow> string \<Rightarrow> string" where
  "TrimPrefix s p = (if HasPrefix s p then drop (length p) s else s)"

section \<open>Messages and the conversation\<close>

text \<open>
  \<^verbatim>\<open>Timestamp\<close> is the reading of the clock when the message was made; the clock
  is an argument of every function that reads it.
\<close>

record Message =
  Role :: string
  Content :: string
  Timestamp :: nat

text \<open>
  The conversation without its lock: the model is sequential, every method runs from
  \<^verbatim>\<open>Lock\<close> to \<^verbatim>\<open>Unlock\<close> in one step. \<^verbatim>\<open>tokenCount\<close> is a Go \<^verbatim>\<open>int\<close>;
  it is an \<^typ>\<open>int\<close> here, since a count of words of strings held in memory stays far
  below \<open>2 ^ 63\<close>.
\<close>

record Conversation =
  History :: "Message list"
  tokenCount :: int

datatype error =
    EOF
  | ErrTooLong
  | Canceled
  | DeadlineExceeded
  | SyntaxError
  | UnmarshalTypeError
  | External string
  | FailedToLoadSystemPrompt error
  | FailedToReadSystemPromptFile error
  | FailedToReadStream error
  | ErrorProcessingStream error
  | FailedToSendRequest error
  | APIRequestFailed int string
  | FailedAfterAttempts nat "error option"
  | FailedToReadConversationFile error
  | FailedToUnmarshalConversation error
  | FailedToMarshalConversation error
  | FailedToWriteConversationFile error

text \<open>\<^verbatim>\<open>loadSystemPrompt\<close>: the argument is what \<^verbatim>\<open>os.ReadFile\<close> returns.\<close>

definition loadSystemPrompt :: "error + string \<Rightarrow> error + string" where
  "loadSystemPrompt file =
     (case file of Inl err \<Rightarrow> Inl (FailedToReadSystemPromptFile err) | Inr data \<Rightarrow> Inr data)"

definition newConversation :: "error + string \<Rightarrow> nat \<Rightarrow> error + Conversation" where
  "newConversation file now =
     (case loadSystemPrompt file of
        Inl err \<Rightarrow> Inl (FailedToLoadSystemPrompt err)
      | Inr systemPrompt \<Rightarrow>
          Inr \<lparr>History = [\<lparr>Role = ''system'', Content = systemPrompt, Timestamp = now\<rparr>],
               tokenCount = int (length (Fields systemPrompt))\<rparr>)"

text \<open>
  \<^verbatim>\<open>truncateHistory\<close>: the loop reads \<^verbatim>\<open>c.History[1]\<close> and keeps
  \<^verbatim>\<open>c.History[2:]\<close>; both are in range, since the loop runs only while the history
  has more than one message.
\<close>

function truncateHistory :: "Conversation \<Rightarrow> Conversation" where
  "truncateHistory c =
     (if tokenCount c > maxConversationTokens \<and> length (History c) > 1 then
        let removedTokens = int (length (Fields (Content (History c ! 1))))
        in truncateHistory
             (c\<lparr>tokenCount := tokenCount c - removedTokens, History := drop 2 (History c)\<rparr>)
      else c)"
  by pat_completeness auto
termination
  by (relation "measure (\<lambda>c. length (History c))") auto

declare truncateHistory.simps [simp del]

definition addMessage :: "Conversation \<Rightarrow> string \<Rightarrow> string \<Rightarrow> nat \<Rightarrow> Conversation" where
  "addMessage c role content now =
     (let tokens = int (length (Fields content))
      in truncateHistory
           (c\<lparr>tokenCount := tokenCount c + tokens,
              History := History c @ [\<lparr>Role = role, Content = content, Timestamp = now\<rparr>]\<rparr>))"

definition getHistory :: "Conversation \<Rightarrow> Message list" where
  "getHistory c = History c"

text \<open>\<^verbatim>\<open>countTokens\<close>: the loop over the messages, with its counter.\<close>

fun countLoop :: "int \<Rightarrow> Message list \<Rightarrow> int" where
  "countLoop count [] = count"
| "countLoop count (msg # msgs) = countLoop (count + int (length (Fields (Content msg)))) msgs"

definition countTokens :: "Message list \<Rightarrow> int" where
  "countTokens messages = countLoop 0 messages"

text \<open>
  \<^verbatim>\<open>loadConversation\<close>: \<open>readFile\<close> is \<^verbatim>\<open>os.ReadFile\<close> (the file system) and
  \<open>unmarshal\<close> is \<^verbatim>\<open>json.Unmarshal\<close> into a \<^verbatim>\<open>[]Message\<close>.
\<close>

definition loadConversation ::
  "(string \<Rightarrow> error + string) \<Rightarrow> (string \<Rightarrow> error + Message list) \<Rightarrow> string
     \<Rightarrow> error + Conversation" where
  "loadConversation readFile unmarshal filename =
     (case readFile filename of
        Inl err \<Rightarrow> Inl (FailedToReadConversationFile err)
      | Inr data \<Rightarrow>
          (case unmarshal data of
             Inl err \<Rightarrow> Inl (FailedToUnmarshalConversation err)
           | Inr history \<Rightarrow> Inr \<lparr>History = history, tokenCount = countTokens history\<rparr>))"

definition replaceWith :: "Conversation \<Rightarrow> Conversation \<Rightarrow> Conversation" where
  "replaceWith c other = c\<lparr>History := History other, tokenCount := tokenCount other\<rparr>"

text \<open>
  \<^verbatim>\<open>truncateConversation\<close>: the loop runs \<open>i\<close> from \<open>len(history) - 1\<close> down to
  \<open>0\<close>; the first argument of \<open>truncateLoop\<close> is \<open>i + 1\<close>, the number of messages
  not yet visited.
\<close>

fun truncateLoop :: "nat \<Rightarrow> Message list \<Rightarrow> int \<Rightarrow> int \<Rightarrow> Message list \<Rightarrow> Message list" where
  "truncateLoop 0 history maxTok totalTokens truncated = truncated"
| "truncateLoop (Suc i) history maxTok totalTokens truncated =
     (let message = history ! i;
          tokens = int (length (Fields (Content message)))
      in if totalTokens + tokens > maxTok then truncated
         else truncateLoop i history maxTok (totalTokens + tokens) (message # truncated))"

definition truncateConversation :: "Message list \<Rightarrow> int \<Rightarrow> Message list" where
  "truncateConversation history maxTok = truncateLoop (length history) history maxTok 0 []"


section \<open>The line scanner\<close>

text \<open>
  An \<^verbatim>\<open>io.Reader\<close> is the bytes it delivers and the error it ends with
  (\<open>None\<close> for \<^verbatim>\<open>io.EOF\<close>). The reader reports its end in a \<^verbatim>\<open>Read\<close> call of its
  own, after the last byte, and never delivers bytes and an error in one call.
\<close>

record Reader =
  bytes :: string
  readErr :: "error option"

text \<open>
  A \<^verbatim>\<open>bufio.Scanner\<close> with the split function \<^verbatim>\<open>ScanLines\<close>: \<open>pending\<close> are the
  bytes of the reader that are not yet returned as a line, \<open>scanErr\<close> is what
  \<^verbatim>\<open>Err()\<close> returns (\<^verbatim>\<open>io.EOF\<close> is reported as no error).
\<close>

record Scanner =
  pending :: string
  srcErr :: "error option"
  scanErr :: "error option"

definition NewScanner :: "Reader \<Rightarrow> Scanner" where
  "NewScanner r = \<lparr>pending = bytes r, srcErr = readErr r, scanErr = None\<rparr>"

definition MaxScanTokenSize :: nat where
  "MaxScanTokenSize = 65536"

definition dropCR :: "string \<Rightarrow> string" where
  "dropCR data = (if data \<noteq> [] \<and> last data = CHR 0x0D then butlast data else data)"

text \<open>
  \<^verbatim>\<open>Scan\<close> and \<^verbatim>\<open>Text\<close> in one: the line, if there is one, and the scanner after
  the call. The scanner reads on only when its buffer holds no whole line, and a
  buffer of \<open>MaxScanTokenSize\<close> bytes without a line end is \<^verbatim>\<open>ErrTooLong\<close>. At the
  end of the reader the bytes after the last line end, if there are any, are the last
  line.
\<close>

definition Scan :: "Scanner \<Rightarrow> string option \<times> Scanner" where
  "Scan s =
     (let line = takeWhile (\<lambda>c. c \<noteq> CHR 0x0A) (pending s)
      in if MaxScanTokenSize \<le> length line then (None, s\<lparr>scanErr := Some ErrTooLong\<rparr>)
         else if length line < length (pending s)
         then (Some (dropCR line), s\<lparr>pending := drop (Suc (length line)) (pending s)\<rparr>)
         else if pending s = [] then (None, s\<lparr>scanErr := srcErr s\<rparr>)
         else (Some (dropCR line), s\<lparr>pending := [], scanErr := srcErr s\<rparr>))"

lemma Scan_shrinks:
  "Scan s = (Some line, s') \<Longrightarrow> length (pending s') < length (pending s)"
  by (auto simp: Scan_def Let_def split: if_splits)

section \<open>The stream decoder\<close>

text \<open>
  A decoded JSON value, as \<^verbatim>\<open>json.Unmarshal\<close> stores it in an \<^verbatim>\<open>interface{}\<close>. An
  object is the list of its members; \<^const>\<open>map_of\<close> reads it as the Go map, so the
  first pair of a key is the one the map holds. A number keeps its text.
\<close>

datatype json =
    JNull
  | JBool bool
  | JNumber string
  | JString string
  | JArray "json list"
  | JObject "(string \<times> json) list"

definition extractContent :: "(string \<times> json) list \<Rightarrow> string" where
  "extractContent jsonResponse =
     (case map_of jsonResponse ''choices'' of
        Some (JArray choices) \<Rightarrow>
          (case choices of
             [] \<Rightarrow> []
           | first # _ \<Rightarrow>
               (case first of
                  JObject choice \<Rightarrow>
                    (case map_of choice ''delta'' of
                       Some (JObject delta) \<Rightarrow>
                         (case map_of delta ''content'' of
                            Some (JString content) \<Rightarrow> content
                          | _ \<Rightarrow> [])
                     | _ \<Rightarrow> [])
                | _ \<Rightarrow> []))
      | _ \<Rightarrow> [])"

text \<open>
  The loop of \<^verbatim>\<open>processStreamResponse\<close>. \<open>unmarshal\<close> is \<^verbatim>\<open>json.Unmarshal\<close> into a
  \<^verbatim>\<open>map[string]interface{}\<close>. The result is the scanner, \<^verbatim>\<open>buffer\<close> and
  \<^verbatim>\<open>lastError\<close> when the loop is left.
\<close>

function streamLoop ::
  "(string \<Rightarrow> error + (string \<times> json) list) \<Rightarrow> Scanner \<Rightarrow> string \<Rightarrow> error option
     \<Rightarrow> Scanner \<times> string \<times> error option" where
  "streamLoop unmarshal scanner buffer lastError =
     (case Scan scanner of
        (None, scanner') \<Rightarrow> (scanner', buffer, lastError)
      | (Some line, scanner') \<Rightarrow>
          if \<not> HasPrefix line ''data: '' then streamLoop unmarshal scanner' buffer lastError
          else
            let data = TrimPrefix line ''data: ''
            in if data = ''[DONE]'' then (scanner', buffer, lastError)
               else
                 (case unmarshal data of
                    Inl err \<Rightarrow> streamLoop unmarshal scanner' buffer (Some err)
                  | Inr jsonResponse \<Rightarrow>
                      let content = extractContent jsonResponse
                      in streamLoop unmarshal scanner'
                           (if content \<noteq> [] then buffer @ content else buffer) lastError))"
  by pat_completeness auto
termination
  by (relation "measure (\<lambda>(unmarshal, scanner, buffer, lastError). length (pending scanner))")
     (auto dest: Scan_shrinks [OF sym])

declare streamLoop.simps [simp del]

definition processStreamResponse ::
  "(string \<Rightarrow> error + (string \<times> json) list) \<Rightarrow> Reader \<Rightarrow> string \<times> error option" where
  "processStreamResponse unmarshal body =
     (case streamLoop unmarshal (NewScanner body) [] None of
        (scanner, buffer, lastError) \<Rightarrow>
          (case scanErr scanner of
             Some err \<Rightarrow> ([], Some (FailedToReadStream err))
           | None \<Rightarrow>
               (case lastError of
                  Some err \<Rightarrow> ([], Some (ErrorProcessingStream err))
                | None \<Rightarrow> (TrimSpace buffer, None))))"


section \<open>A JSON decoder\<close>

text \<open>
  The theorems about \<^const>\<open>processStreamResponse\<close> hold for every decoder. Where one
  evaluates a stream of bytes, the decoder is \<open>jsonUnmarshal\<close> below, which follows
  \<^verbatim>\<open>json.Unmarshal\<close> into a \<^verbatim>\<open>map[string]interface{}\<close>. A text that is not JSON, or
  that nests arrays and objects more than 10000 deep, is a \<^const>\<open>SyntaxError\<close>. An
  object is the map, with the last of two equal keys; \<^verbatim>\<open>null\<close> leaves the map as
  it is (nil, read as the empty map); any other value, and an object with a number
  inside that no \<^verbatim>\<open>float64\<close> holds, is an \<^const>\<open>UnmarshalTypeError\<close>. In a string,
  a byte that is not part of a UTF-8 encoding is replaced by U+FFFD.
\<close>

definition isJSONSpace :: "char \<Rightarrow> bool" where
  "isJSONSpace c = (c = CHR '' '' \<or> c = CHR 0x09 \<or> c = CHR 0x0A \<or> c = CHR 0x0D)"

definition skipSpace :: "string \<Rightarrow> string" where
  "skipSpace s = dropWhile isJSONSpace s"

definition isDigit :: "char \<Rightarrow> bool" where
  "isDigit c = (48 \<le> (of_char c :: nat) \<and> (of_char c :: nat) \<le> 57)"

definition hexValue :: "char \<Rightarrow> nat option" where
  "hexValue c =
     (let n = (of_char c :: nat)
      in if 48 \<le> n \<and> n \<le> 57 then Some (n - 48)
         else if 97 \<le> n \<and> n \<le> 102 then Some (n - 87)
         else if 65 \<le> n \<and> n \<le> 70 then Some (n - 55)
         else None)"

text \<open>The four hexadecimal digits after \<^verbatim>\<open>\u\<close>.\<close>

definition getu4 :: "string \<Rightarrow> nat option" where
  "getu4 s =
     (case map hexValue (take 4 s) of
        [Some a, Some b, Some c, Some d] \<Rightarrow> Some (((a * 16 + b) * 16 + c) * 16 + d)
      | _ \<Rightarrow> None)"

definition encodeRune :: "nat \<Rightarrow> string" where
  "encodeRune n =
     (if n < 0x80 then [char_of n]
      else if n < 0x800 then [char_of (0xC0 + n div 64), char_of (0x80 + n mod 64)]
      else if n < 0x10000 then
        [char_of (0xE0 + n div 4096), char_of (0x80 + n div 64 mod 64), char_of (0x80 + n mod 64)]
      else
        [char_of (0xF0 + n div 262144), char_of (0x80 + n div 4096 mod 64),
         char_of (0x80 + n div 64 mod 64), char_of (0x80 + n mod 64)])"

text \<open>
  \<^verbatim>\<open>utf8.DecodeRune\<close>: the number of bytes of the code point that the string begins
  with, and \<open>0\<close> when it begins with bytes that are not an encoding (too short, too
  long for the code point, a surrogate, or above U+10FFFF).
\<close>

definition inRange :: "nat \<Rightarrow> nat \<Rightarrow> char \<Rightarrow> bool" where
  "inRange lo hi c = (lo \<le> (of_char c :: nat) \<and> (of_char c :: nat) \<le> hi)"

definition continues :: "nat \<Rightarrow> nat \<Rightarrow> nat \<Rightarrow> string \<Rightarrow> bool" where
  "continues lo hi k cs =
     (k \<le> length cs \<and> inRange lo hi (hd cs) \<and> list_all (inRange 0x80 0xBF) (take (k - 1) (tl cs)))"

definition runeLength :: "string \<Rightarrow> nat" where
  "runeLength s =
     (case s of
        [] \<Rightarrow> 0
      | c # cs \<Rightarrow>
          let n = (of_char c :: nat)
          in if n < 0x80 then 1
             else if 0xC2 \<le> n \<and> n \<le> 0xDF then (if continues 0x80 0xBF 1 cs then 2 else 0)
             else if n = 0xE0 then (if continues 0xA0 0xBF 2 cs then 3 else 0)
             else if n = 0xED then (if continues 0x80 0x9F 2 cs then 3 else 0)
             else if 0xE1 \<le> n \<and> n \<le> 0xEF then (if continues 0x80 0xBF 2 cs then 3 else 0)
             else if n = 0xF0 then (if continues 0x90 0xBF 3 cs then 4 else 0)
             else if n = 0xF4 then (if continues 0x80 0x8F 3 cs then 4 else 0)
             else if 0xF1 \<le> n \<and> n \<le> 0xF3 then (if continues 0x80 0xBF 3 cs then 4 else 0)
             else 0)"

definition unescape :: "char \<Rightarrow> char option" where
  "unescape e =
     (if e = CHR 0x22 \<or> e = CHR 0x5C \<or> e = CHR ''/'' then Some e
      else if e = CHR ''b'' then Some (CHR 0x08)
      else if e = CHR ''f'' then Some (CHR 0x0C)
      else if e = CHR ''n'' then Some (CHR 0x0A)
      else if e = CHR ''r'' then Some (CHR 0x0D)
      else if e = CHR ''t'' then Some (CHR 0x09)
      else None)"

text \<open>
  A string literal after its opening quote: the decoded string and the input after the
  closing quote. A surrogate escape without its partner, and a byte that is not part
  of a UTF-8 encoding, decode to U+FFFD.
\<close>

fun parseString :: "string \<Rightarrow> string \<Rightarrow> (string \<times> string) option" where
  "parseString acc [] = None"
| "parseString acc (c # cs) =
     (if c = CHR 0x22 then Some (acc, cs)
      else if (of_char c :: nat) < 0x20 then None
      else if 0x80 \<le> (of_char c :: nat) then
        (if runeLength (c # cs) = 0 then parseString (acc @ encodeRune 0xFFFD) cs
         else parseString (acc @ take (runeLength (c # cs)) (c # cs))
                (drop (runeLength (c # cs) - 1) cs))
      else if c \<noteq> CHR 0x5C then parseString (acc @ [c]) cs
      else
        (case cs of
           [] \<Rightarrow> None
         | e # es \<Rightarrow>
             if e = CHR ''u'' then
               (case getu4 es of
                  None \<Rightarrow> None
                | Some hi \<Rightarrow>
                    if hi < 0xD800 \<or> 0xE000 \<le> hi then parseString (acc @ encodeRune hi) (drop 4 es)
                    else
                      (case (if take 2 (drop 4 es) = [CHR 0x5C, CHR ''u''] then getu4 (drop 6 es)
                             else None) of
                         None \<Rightarrow> parseString (acc @ encodeRune 0xFFFD) (drop 4 es)
                       | Some lo \<Rightarrow>
                           if hi < 0xDC00 \<and> 0xDC00 \<le> lo \<and> lo < 0xE000 then
                             parseString
                               (acc @ encodeRune (0x10000 + (hi - 0xD800) * 1024 + (lo - 0xDC00)))
                               (drop 10 es)
                           else parseString (acc @ encodeRune 0xFFFD) (drop 4 es)))
             else
               (case unescape e of
                  None \<Rightarrow> None
                | Some ch \<Rightarrow> parseString (acc @ [ch]) es)))"

text \<open>A number: its text and the input after it.\<close>

definition parseDigits :: "string \<Rightarrow> (string \<times> string) option" where
  "parseDigits s =
     (let ds = takeWhile isDigit s
      in if ds = [] then None else Some (ds, drop (length ds) s))"

definition parseNumber :: "string \<Rightarrow> (string \<times> string) option" where
  "parseNumber s =
     (let sign = (if take 1 s = ''-'' then ''-'' else []);
          s1 = drop (length sign) s
      in case parseDigits s1 of
           None \<Rightarrow> None
         | Some (ds, s2) \<Rightarrow>
             let whole = (if hd ds = CHR ''0'' then ''0'' else ds);
                 s3 = drop (length whole) s1
             in case (if take 1 s3 = ''.'' then
                        map_option (\<lambda>(fs, r). (CHR ''.'' # fs, r)) (parseDigits (drop 1 s3))
                      else Some ([], s3)) of
                  None \<Rightarrow> None
                | Some (frac, s4) \<Rightarrow>
                    if take 1 s4 = ''e'' \<or> take 1 s4 = ''E'' then
                      let esign = (if take 1 (drop 1 s4) = ''+'' \<or> take 1 (drop 1 s4) = ''-''
                                   then take 1 (drop 1 s4) else [])
                      in case parseDigits (drop (Suc (length esign)) s4) of
                           None \<Rightarrow> None
                         | Some (es, s5) \<Rightarrow> Some (sign @ whole @ frac @ take 1 s4 @ esign @ es, s5)
                    else Some (sign @ whole @ frac, s4))"

text \<open>
  \<^verbatim>\<open>strconv.ParseFloat\<close> has no \<^verbatim>\<open>float64\<close> for a number when the number rounds
  to infinity, that is, when its size is \<open>2 ^ 1024 - 2 ^ 970\<close> or more (the middle
  between the largest \<^verbatim>\<open>float64\<close> and \<open>2 ^ 1024\<close>). The number is the digits \<open>m\<close>
  of its text, without the point, times \<open>10 ^ e\<close>.
\<close>

definition digitsValue :: "string \<Rightarrow> int" where
  "digitsValue ds = foldl (\<lambda>v c. 10 * v + ((of_char c :: int) - 48)) 0 ds"

definition fitsFloat64 :: "string \<Rightarrow> bool" where
  "fitsFloat64 num =
     (let s1 = (if take 1 num = ''-'' then drop 1 num else num);
          whole = takeWhile isDigit s1;
          s2 = drop (length whole) s1;
          frac = (if take 1 s2 = ''.'' then takeWhile isDigit (drop 1 s2) else []);
          s3 = (if take 1 s2 = ''.'' then drop (Suc (length frac)) s2 else s2);
          s4 = drop 1 s3;
          expDigits = (if take 1 s4 = ''+'' \<or> take 1 s4 = ''-'' then drop 1 s4 else s4);
          ex = (if take 1 s4 = ''-'' then - digitsValue expDigits else digitsValue expDigits);
          e = ex - int (length frac);
          m = digitsValue (whole @ frac)
      in if 0 \<le> e then m * 10 ^ nat e < 2 ^ 1024 - 2 ^ 970
         else m < (2 ^ 1024 - 2 ^ 970) * 10 ^ nat (- e))"

definition maxNestingDepth :: nat where
  "maxNestingDepth = 10000"

text \<open>
  The value parser. Its first argument bounds the number of nested calls; every call
  reads a byte before it calls again, so the length of the input, and one more, is
  enough. Its second argument is the number of arrays and objects that are open.
\<close>

fun parseValue :: "nat \<Rightarrow> nat \<Rightarrow> string \<Rightarrow> (json \<times> string) option"
  and parseElements :: "nat \<Rightarrow> nat \<Rightarrow> json list \<Rightarrow> string \<Rightarrow> (json list \<times> string) option"
  and parseMembers ::
    "nat \<Rightarrow> nat \<Rightarrow> (string \<times> json) list \<Rightarrow> string \<Rightarrow> ((string \<times> json) list \<times> string) option"
  where
  "parseValue 0 depth s = None"
| "parseValue (Suc n) depth s =
     (case skipSpace s of
        [] \<Rightarrow> None
      | c # cs \<Rightarrow>
          if c = CHR ''{'' then
            (if maxNestingDepth \<le> depth then None
             else if take 1 (skipSpace cs) = ''}'' then Some (JObject [], drop 1 (skipSpace cs))
             else map_option (\<lambda>(ms, r). (JObject ms, r)) (parseMembers n (Suc depth) [] cs))
          else if c = CHR ''['' then
            (if maxNestingDepth \<le> depth then None
             else if take 1 (skipSpace cs) = '']'' then Some (JArray [], drop 1 (skipSpace cs))
             else map_option (\<lambda>(vs, r). (JArray vs, r)) (parseElements n (Suc depth) [] cs))
          else if c = CHR 0x22 then map_option (\<lambda>(str, r). (JString str, r)) (parseString [] cs)
          else if HasPrefix (c # cs) ''true'' then Some (JBool True, drop 4 (c # cs))
          else if HasPrefix (c # cs) ''false'' then Some (JBool False, drop 5 (c # cs))
          else if HasPrefix (c # cs) ''null'' then Some (JNull, drop 4 (c # cs))
          else map_option (\<lambda>(num, r). (JNumber num, r)) (parseNumber (c # cs)))"
| "parseElements 0 depth acc s = None"
| "parseElements (Suc n) depth acc s =
     (case parseValue n depth s of
        None \<Rightarrow> None
      | Some (v, r) \<Rightarrow>
          if take 1 (skipSpace r) = '','' then
            parseElements n depth (acc @ [v]) (drop 1 (skipSpace r))
          else if take 1 (skipSpace r) = '']'' then Some (acc @ [v], drop 1 (skipSpace r))
          else None)"
| "parseMembers 0 depth acc s = None"
| "parseMembers (Suc n) depth acc s =
     (if take 1 (skipSpace s) \<noteq> [CHR 0x22] then None
      else
        (case parseString [] (drop 1 (skipSpace s)) of
           None \<Rightarrow> None
         | Some (key, r) \<Rightarrow>
             if take 1 (skipSpace r) \<noteq> '':'' then None
             else
               (case parseValue n depth (drop 1 (skipSpace r)) of
                  None \<Rightarrow> None
                | Some (v, r') \<Rightarrow>
                    if take 1 (skipSpace r') = '','' then
                      parseMembers n depth ((key, v) # acc) (drop 1 (skipSpace r'))
                    else if take 1 (skipSpace r') = ''}'' then
                      Some ((key, v) # acc, drop 1 (skipSpace r'))
                    else None)))"

text \<open>Every number of the value has a \<^verbatim>\<open>float64\<close>.\<close>

fun numbersFit :: "json \<Rightarrow> bool" where
  "numbersFit (JNumber num) = fitsFloat64 num"
| "numbersFit (JArray vs) = list_all numbersFit vs"
| "numbersFit (JObject ms) = list_all numbersFit (map snd ms)"
| "numbersFit v = True"

definition jsonUnmarshal :: "string \<Rightarrow> error + (string \<times> json) list" where
  "jsonUnmarshal data =
     (case parseValue (Suc (length data)) 0 data of
        None \<Rightarrow> Inl SyntaxError
      | Some (v, r) \<Rightarrow>
          if skipSpace r \<noteq> [] then Inl SyntaxError
          else
            (case v of
               JObject members \<Rightarrow>
                 if numbersFit v then Inr members else Inl UnmarshalTypeError
             | JNull \<Rightarrow> Inr []
             | _ \<Rightarrow> Inl UnmarshalTypeError))"


section \<open>The request dispatcher\<close>

text \<open>
  What the program does to the world, in the order it does it: what it prints and logs,
  the file it writes, the requests it sends and the time it sleeps.
\<close>

datatype effect =
    PrintPrompt
  | PrintGoodbye
  | PrintUsage
  | WriteFile nat "Message list"
  | PrintSaved nat
  | PrintErrorSaving error
  | PrintErrorLoading error
  | PrintSummary nat int "(string \<times> string) list"
  | SendRequest "Message list"
  | LogAttemptFailed nat error
  | LogRetrying int
  | Sleep int
  | PrintFailed error
  | PrintAI string

fun isSendRequest :: "effect \<Rightarrow> bool" where
  "isSendRequest (SendRequest history) = True"
| "isSendRequest e = False"

text \<open>
  What the world does to one attempt of the dispatcher: the case that the
  \<^verbatim>\<open>select\<close> statement takes (a tick of the rate limiter, or the context is done,
  with \<^verbatim>\<open>ctx.Err()\<close>), what \<^verbatim>\<open>sendRequest\<close> returns (an error, or the status and
  the body of the response) and the value of \<^verbatim>\<open>rand.Int63n(int64(backoff))\<close>.
\<close>

datatype select_case = Tick | CtxDone error

record attempt_env =
  selected :: select_case
  sent :: "error + int \<times> Reader"
  jitter :: int

definition StatusOK :: int where
  "StatusOK = 200"

text \<open>\<^verbatim>\<open>getAIResponse\<close>, given what \<^verbatim>\<open>sendRequest\<close> returned.\<close>

definition getAIResponse ::
  "(string \<Rightarrow> error + (string \<times> json) list) \<Rightarrow> error + int \<times> Reader \<Rightarrow> string \<times> error option" where
  "getAIResponse unmarshal response =
     (case response of
        Inl err \<Rightarrow> ([], Some (FailedToSendRequest err))
      | Inr (statusCode, body) \<Rightarrow>
          if statusCode \<noteq> StatusOK then ([], Some (APIRequestFailed statusCode (bytes body)))
          else processStreamResponse unmarshal body)"

text \<open>
  The loop of \<^verbatim>\<open>getAIResponseWithRetry\<close>, with its variables \<^verbatim>\<open>attempt\<close>,
  \<^verbatim>\<open>err\<close> and \<^verbatim>\<open>backoff\<close>, and the effects so far. The result is the pair that the
  function returns, and the effects.
\<close>

function retryLoop ::
  "(string \<Rightarrow> error + (string \<times> json) list) \<Rightarrow> (nat \<Rightarrow> attempt_env) \<Rightarrow> Conversation \<Rightarrow> nat
     \<Rightarrow> error option \<Rightarrow> int \<Rightarrow> effect list \<Rightarrow> (string \<times> error option) \<times> effect list" where
  "retryLoop unmarshal env conversation attempt err backoff trace =
     (if attempt < maxRetries then
        (case selected (env attempt) of
           CtxDone ctxErr \<Rightarrow> (([], Some ctxErr), trace)
         | Tick \<Rightarrow>
             let trace1 = trace @ [SendRequest (truncateConversation (getHistory conversation) maxTokens)]
             in case getAIResponse unmarshal (sent (env attempt)) of
                  (aiResponse, None) \<Rightarrow> ((aiResponse, None), trace1)
                | (aiResponse, Some err') \<Rightarrow>
                    let trace2 = trace1 @ [LogAttemptFailed (attempt + 1) err']
                    in if attempt < maxRetries - 1 then
                         let sleepTime = backoff + jitter (env attempt)
                         in retryLoop unmarshal env conversation (attempt + 1) (Some err')
                              (backoff * backoffFactor)
                              (trace2 @ [LogRetrying sleepTime, Sleep sleepTime])
                       else retryLoop unmarshal env conversation (attempt + 1) (Some err') backoff trace2)
      else (([], Some (FailedAfterAttempts maxRetries err)), trace))"
  by pat_completeness auto
termination
  by (relation "measure (\<lambda>(unmarshal, env, conversation, attempt, err, backoff, trace).
        maxRetries - attempt)") auto

declare retryLoop.simps [simp del]

definition getAIResponseWithRetry ::
  "(string \<Rightarrow> error + (string \<times> json) list) \<Rightarrow> (nat \<Rightarrow> attempt_env) \<Rightarrow> Conversation
     \<Rightarrow> (string \<times> error option) \<times> effect list" where
  "getAIResponseWithRetry unmarshal env conversation =
     retryLoop unmarshal env conversation 0 None initialBackoff []"

section \<open>The chat loop\<close>

text \<open>
  What the world does to one turn of the chat loop: whether the context is done when
  the loop looks at it, the clock at each reading, the file system and the decoders,
  and the attempts of the dispatcher.
\<close>

record turn_env =
  ctxDone :: "error option"
  clock :: "nat \<Rightarrow> nat"
  marshalErr :: "error option"
  writeErr :: "error option"
  readFile :: "string \<Rightarrow> error + string"
  unmarshalHistory :: "string \<Rightarrow> error + Message list"
  unmarshalRecord :: "string \<Rightarrow> error + (string \<times> json) list"
  attempts :: "nat \<Rightarrow> attempt_env"

text \<open>What a call of \<^verbatim>\<open>processChatInput\<close> returns and leaves behind.\<close>

record outcome =
  ret :: "error option"
  stdin :: Scanner
  conv :: Conversation
  effects :: "effect list"

definition getUserInput :: "Scanner \<Rightarrow> string \<times> Scanner" where
  "getUserInput scanner =
     (case Scan scanner of
        (None, scanner') \<Rightarrow> (exitCommand, scanner')
      | (Some text, scanner') \<Rightarrow> (TrimSpace text, scanner'))"

text \<open>
  \<^verbatim>\<open>strings.EqualFold\<close> with \<open>exit\<close>: no letter beyond ASCII folds to a letter of
  \<open>exit\<close>, so the comparison is the one of the ASCII letters without their case.
\<close>

definition toLower :: "char \<Rightarrow> char" where
  "toLower c =
     (if 65 \<le> (of_char c :: nat) \<and> (of_char c :: nat) \<le> 90 then char_of ((of_char c :: nat) + 32)
      else c)"

definition EqualFold :: "string \<Rightarrow> string \<Rightarrow> bool" where
  "EqualFold s t = (map toLower s = map toLower t)"

text \<open>\<^verbatim>\<open>strings.SplitN(s, " ", 2)\<close>.\<close>

definition SplitN2 :: "string \<Rightarrow> string list" where
  "SplitN2 s =
     (let a = takeWhile (\<lambda>c. c \<noteq> CHR '' '') s
      in if length a < length s then [a, drop (Suc (length a)) s] else [s])"

definition truncateString :: "string \<Rightarrow> nat \<Rightarrow> string" where
  "truncateString s maxLen = (if length s \<le> maxLen then s else take (maxLen - 3) s @ ''...'')"

definition printConversationSummary :: "Conversation \<Rightarrow> effect list" where
  "printConversationSummary conversation =
     [PrintSummary (length (History conversation)) (tokenCount conversation)
        (map (\<lambda>msg. (Role msg, truncateString (Content msg) 50))
           (drop (length (History conversation) - 6) (History conversation)))]"

text \<open>
  \<^verbatim>\<open>saveConversation\<close>: the name of the file is made from the clock. The result is
  the error, if there is one, and the effects.
\<close>

definition saveConversation :: "turn_env \<Rightarrow> Conversation \<Rightarrow> error option \<times> effect list" where
  "saveConversation env conversation =
     (case marshalErr env of
        Some err \<Rightarrow> (Some (FailedToMarshalConversation err), [])
      | None \<Rightarrow>
          (case writeErr env of
             Some err \<Rightarrow>
               (Some (FailedToWriteConversationFile err),
                [WriteFile (clock env 0) (getHistory conversation)])
           | None \<Rightarrow>
               (None, [WriteFile (clock env 0) (getHistory conversation), PrintSaved (clock env 0)])))"

definition handleSaveCommand :: "turn_env \<Rightarrow> Scanner \<Rightarrow> Conversation \<Rightarrow> effect list \<Rightarrow> outcome" where
  "handleSaveCommand env scanner conversation trace =
     (case saveConversation env conversation of
        (Some err, saved) \<Rightarrow>
          \<lparr>ret = None, stdin = scanner, conv = conversation,
           effects = trace @ saved @ [PrintErrorSaving err]\<rparr>
      | (None, saved) \<Rightarrow>
          \<lparr>ret = None, stdin = scanner, conv = conversation, effects = trace @ saved\<rparr>)"

definition handleLoadCommand ::
  "turn_env \<Rightarrow> string \<Rightarrow> Scanner \<Rightarrow> Conversation \<Rightarrow> effect list \<Rightarrow> outcome" where
  "handleLoadCommand env userInput scanner conversation trace =
     (let parts = SplitN2 userInput
      in if length parts \<noteq> 2 then
           \<lparr>ret = None, stdin = scanner, conv = conversation, effects = trace @ [PrintUsage]\<rparr>
         else
           (case loadConversation (readFile env) (unmarshalHistory env) (parts ! 1) of
              Inl err \<Rightarrow>
                \<lparr>ret = None, stdin = scanner, conv = conversation,
                 effects = trace @ [PrintErrorLoading err]\<rparr>
            | Inr loadedConversation \<Rightarrow>
                let conversation' = replaceWith conversation loadedConversation
                in \<lparr>ret = None, stdin = scanner, conv = conversation',
                    effects = trace @ printConversationSummary conversation'\<rparr>))"

definition processChatInput :: "turn_env \<Rightarrow> Scanner \<Rightarrow> Conversation \<Rightarrow> outcome" where
  "processChatInput env scanner conversation =
     (case getUserInput scanner of
        (userInput, scanner') \<Rightarrow>
          if userInput = [] then
            \<lparr>ret = None, stdin = scanner', conv = conversation, effects = [PrintPrompt]\<rparr>
          else if EqualFold userInput exitCommand then
            \<lparr>ret = Some EOF, stdin = scanner', conv = conversation,
             effects = [PrintPrompt, PrintGoodbye]\<rparr>
          else if HasPrefix userInput ''/save'' then
            handleSaveCommand env scanner' conversation [PrintPrompt]
          else if HasPrefix userInput ''/load'' then
            handleLoadCommand env userInput scanner' conversation [PrintPrompt]
          else
            let conversation1 = addMessage conversation ''user'' userInput (clock env 0)
            in case getAIResponseWithRetry (unmarshalRecord env) (attempts env) conversation1 of
                 ((aiResponse, Some err), trace) \<Rightarrow>
                   \<lparr>ret = None, stdin = scanner', conv = conversation1,
                    effects = [PrintPrompt] @ trace @ [PrintFailed err]\<rparr>
               | ((aiResponse, None), trace) \<Rightarrow>
                   \<lparr>ret = None, stdin = scanner',
                    conv = addMessage conversation1 ''assistant'' aiResponse (clock env 1),
                    effects = [PrintPrompt] @ trace @ [PrintAI aiResponse]\<rparr>)"

text \<open>\<^verbatim>\<open>errors.Is\<close>: the error, or an error that it wraps, is the target.\<close>

fun errorsIs :: "error \<Rightarrow> error \<Rightarrow> bool" where
  "errorsIs err target =
     (err = target \<or>
      (case err of
         FailedToLoadSystemPrompt e \<Rightarrow> errorsIs e target
       | FailedToReadSystemPromptFile e \<Rightarrow> errorsIs e target
       | FailedToReadStream e \<Rightarrow> errorsIs e target
       | ErrorProcessingStream e \<Rightarrow> errorsIs e target
       | FailedToSendRequest e \<Rightarrow> errorsIs e target
       | FailedAfterAttempts n (Some e) \<Rightarrow> errorsIs e target
       | FailedToReadConversationFile e \<Rightarrow> errorsIs e target
       | FailedToUnmarshalConversation e \<Rightarrow> errorsIs e target
       | FailedToMarshalConversation e \<Rightarrow> errorsIs e target
       | FailedToWriteConversationFile e \<Rightarrow> errorsIs e target
       | _ \<Rightarrow> False))"

lemma processChatInput_reads:
  "ret (processChatInput env scanner conversation) = None \<Longrightarrow>
   length (pending (stdin (processChatInput env scanner conversation))) < length (pending scanner)"
  by (auto simp: processChatInput_def getUserInput_def handleSaveCommand_def
        handleLoadCommand_def Let_def EqualFold_def exitCommand_def
      split: prod.splits option.splits if_splits sum.splits dest: Scan_shrinks)

text \<open>
  \<^verbatim>\<open>processChatInputLoop\<close>: \<open>env n\<close> is the world at the \<open>n\<close>-th turn. The result
  is the error that the loop returns, the conversation and the effects.
\<close>

function processChatInputLoop ::
  "(nat \<Rightarrow> turn_env) \<Rightarrow> nat \<Rightarrow> Scanner \<Rightarrow> Conversation \<Rightarrow> effect list
     \<Rightarrow> error option \<times> Conversation \<times> effect list" where
  "processChatInputLoop env n scanner conversation trace =
     (case ctxDone (env n) of
        Some ctxErr \<Rightarrow> (Some ctxErr, conversation, trace)
      | None \<Rightarrow>
          let r = processChatInput (env n) scanner conversation
          in case ret r of
               Some err \<Rightarrow>
                 if errorsIs err EOF then (None, conv r, trace @ effects r)
                 else (Some err, conv r, trace @ effects r)
             | None \<Rightarrow> processChatInputLoop env (Suc n) (stdin r) (conv r) (trace @ effects r))"
  by pat_completeness auto
termination
  by (relation "measure (\<lambda>(env, n, scanner, conversation, trace). length (pending scanner))")
     (auto dest: processChatInput_reads)

declare processChatInputLoop.simps [simp del]


section \<open>What the decoder assembles, line by line\<close>

text \<open>
  The description of the decoder, in terms of the lines of the stream: the fragment
  that a line contributes (the content of a data line that decodes, nothing
  otherwise), and the decode error that is recorded last (the error of the last data
  line that does not decode).
\<close>

definition fragmentOf :: "(string \<Rightarrow> error + (string \<times> json) list) \<Rightarrow> string \<Rightarrow> string" where
  "fragmentOf unmarshal line =
     (if HasPrefix line ''data: '' then
        (case unmarshal (TrimPrefix line ''data: '') of
           Inl err \<Rightarrow> []
         | Inr jsonResponse \<Rightarrow> extractContent jsonResponse)
      else [])"

definition decodeErrorOf ::
  "(string \<Rightarrow> error + (string \<times> json) list) \<Rightarrow> string \<Rightarrow> error option" where
  "decodeErrorOf unmarshal line =
     (if HasPrefix line ''data: '' then
        (case unmarshal (TrimPrefix line ''data: '') of
           Inl err \<Rightarrow> Some err
         | Inr jsonResponse \<Rightarrow> None)
      else None)"

fun lastDecodeError ::
  "(string \<Rightarrow> error + (string \<times> json) list) \<Rightarrow> error option \<Rightarrow> string list \<Rightarrow> error option" where
  "lastDecodeError unmarshal recorded [] = recorded"
| "lastDecodeError unmarshal recorded (line # lines) =
     lastDecodeError unmarshal
       (case decodeErrorOf unmarshal line of None \<Rightarrow> recorded | Some err \<Rightarrow> Some err) lines"

text \<open>
  A line as the stream holds it: without a line end inside, short enough for the
  scanner, and not the terminal sentinel.
\<close>

definition plainLine :: "string \<Rightarrow> bool" where
  "plainLine l =
     (CHR 0x0A \<notin> set l \<and> length l < MaxScanTokenSize \<and> dropCR l \<noteq> ''data: [DONE]'')"

section \<open>Examples of the world\<close>

text \<open>
  An attempt whose request is refused, a turn in which every attempt is such a one and
  no file can be read, and a conversation seeded with a prompt of two words.
\<close>

abbreviation refusedAttempt :: attempt_env where
  "refusedAttempt \<equiv>
     \<lparr>selected = Tick, sent = Inl (External ''connection refused''), jitter = 0\<rparr>"

abbreviation quietTurn :: turn_env where
  "quietTurn \<equiv>
     \<lparr>ctxDone = None, clock = (\<lambda>n. 0), marshalErr = None, writeErr = None,
      readFile = (\<lambda>filename. Inl (External ''no such file'')),
      unmarshalHistory = (\<lambda>data. Inr []),
      unmarshalRecord = jsonUnmarshal,
      attempts = (\<lambda>k. refusedAttempt)\<rparr>"

abbreviation briefConversation :: Conversation where
  "briefConversation \<equiv>
     \<lparr>History = [\<lparr>Role = ''system'', Content = ''Be brief.'', Timestamp = 0\<rparr>],
      tokenCount = 2\<rparr>"

section \<open>The token count and the truncation of the history\<close>

lemma splitFields_word: "splitFields 0 [] (''w '' @ r) = ''w'' # splitFields 0 [] r"
  by (simp add: runeWidth_def spaceRunes_def)

text \<open>A content of \<open>n\<close> words.\<close>

lemma Fields_words: "length (Fields (concat (replicate n ''w ''))) = n"
  unfolding Fields_def
proof (induction n)
  case 0
  show ?case by simp
next
  case (Suc n)
  have "splitFields 0 [] (concat (replicate (Suc n) ''w ''))
      = ''w'' # splitFields 0 [] (concat (replicate n ''w ''))"
    using splitFields_word [of "concat (replicate n ''w '')"] by simp
  with Suc show ?case by simp
qed

text \<open>The word counts of the contents of the examples.\<close>

lemma words_of_examples:
  "length (Fields ''You are a helpful assistant.'') = 5"
  "length (Fields ''Understood.'') = 1"
  "length (Fields ''one two three four five six seven eight nine ten'') = 10"
  "length (Fields ''Be brief.'') = 2"
  "length (Fields ''hello'') = 1"
  "length (Fields ''a b'') = 2"
  "length (Fields ''c'') = 1"
  "length (Fields []) = 0"
  by code_simp+

lemma countLoop_sum:
  "countLoop k ms = k + sum_list (map (\<lambda>m. int (length (Fields (Content m)))) ms)"
  by (induction ms arbitrary: k) auto

lemma countTokens_sum:
  "countTokens ms = sum_list (map (\<lambda>m. int (length (Fields (Content m)))) ms)"
  by (simp add: countTokens_def countLoop_sum)

lemma truncateHistory_exit:
  "tokenCount (truncateHistory c) \<le> maxConversationTokens
     \<or> length (History (truncateHistory c)) \<le> 1"
proof (induction c rule: truncateHistory.induct)
  case (1 c)
  show ?case
  proof (cases "tokenCount c > maxConversationTokens \<and> length (History c) > 1")
    case True
    then show ?thesis
      using 1 by (subst (1 2) truncateHistory.simps) (simp add: Let_def)
  next
    case False
    then show ?thesis
      by (subst (1 2) truncateHistory.simps) auto
  qed
qed

lemma truncateHistory_stop:
  "tokenCount c \<le> maxConversationTokens \<or> length (History c) \<le> 1 \<Longrightarrow> truncateHistory c = c"
  by (subst truncateHistory.simps) auto

lemma truncateHistory_step:
  "maxConversationTokens < tokenCount c \<Longrightarrow> 1 < length (History c) \<Longrightarrow>
   truncateHistory c =
     truncateHistory
       (c\<lparr>tokenCount := tokenCount c - int (length (Fields (Content (History c ! 1)))),
          History := drop 2 (History c)\<rparr>)"
  by (subst truncateHistory.simps) (simp add: Let_def)

text \<open>
  C1. The claim: after every \<^verbatim>\<open>addMessage\<close> the stored \<open>tokenCount\<close> is the sum of the
  word counts of the messages that are in \<open>History\<close>. The code does not keep it. The
  conversation is seeded with a system prompt of five words; a user message of 4000
  words is appended. The truncation takes the words of \<^verbatim>\<open>History[1]\<close> off the count
  and drops \<^verbatim>\<open>History[0]\<close> with \<^verbatim>\<open>History[1]\<close>: no message is left, and the count
  is five.
\<close>

theorem C1_token_count_drifts:
  "newConversation (Inr ''You are a helpful assistant.'') 0
     = Inr \<lparr>History = [\<lparr>Role = ''system'', Content = ''You are a helpful assistant.'',
                         Timestamp = 0\<rparr>],
            tokenCount = 5\<rparr>
   \<and> tokenCount
        (addMessage
           \<lparr>History = [\<lparr>Role = ''system'', Content = ''You are a helpful assistant.'',
                        Timestamp = 0\<rparr>],
            tokenCount = 5\<rparr>
           ''user'' (concat (replicate 4000 ''w '')) 1) = 5
   \<and> countTokens
        (History
           (addMessage
              \<lparr>History = [\<lparr>Role = ''system'', Content = ''You are a helpful assistant.'',
                           Timestamp = 0\<rparr>],
               tokenCount = 5\<rparr>
              ''user'' (concat (replicate 4000 ''w '')) 1)) = 0"
proof -
  have seed: "newConversation (Inr ''You are a helpful assistant.'') 0
     = Inr \<lparr>History = [\<lparr>Role = ''system'', Content = ''You are a helpful assistant.'',
                         Timestamp = 0\<rparr>],
            tokenCount = 5\<rparr>"
    by (simp add: newConversation_def loadSystemPrompt_def words_of_examples)
  have run: "addMessage
           \<lparr>History = [\<lparr>Role = ''system'', Content = ''You are a helpful assistant.'',
                        Timestamp = 0\<rparr>],
            tokenCount = 5\<rparr>
           ''user'' (concat (replicate 4000 ''w '')) 1 = \<lparr>History = [], tokenCount = 5\<rparr>"
    apply (simp only: addMessage_def Let_def Fields_words)
    apply (subst truncateHistory.simps)
    apply (simp add: maxConversationTokens_def Fields_words)
    apply (subst truncateHistory.simps)
    apply (simp add: maxConversationTokens_def)
    done
  show ?thesis
    using seed by (simp only: run) (simp add: countTokens_def)
qed

text \<open>
  C2. The claim: the truncation never removes the system message from the head of
  \<open>History\<close>. The code removes it. The seeded conversation gets a user message of 3990
  words, an assistant message of one word and a user message of ten words; the count
  is then 4006, the truncation drops \<^verbatim>\<open>History[0]\<close> and \<^verbatim>\<open>History[1]\<close>, and the
  head of \<open>History\<close> is the message of the assistant.
\<close>

theorem C2_system_message_removed:
  "History
     (addMessage
        (addMessage
           (addMessage
              \<lparr>History = [\<lparr>Role = ''system'', Content = ''You are a helpful assistant.'',
                           Timestamp = 0\<rparr>],
               tokenCount = 5\<rparr>
              ''user'' (concat (replicate 3990 ''w '')) 10)
           ''assistant'' ''Understood.'' 20)
        ''user'' ''one two three four five six seven eight nine ten'' 30)
   = [\<lparr>Role = ''assistant'', Content = ''Understood.'', Timestamp = 20\<rparr>,
      \<lparr>Role = ''user'', Content = ''one two three four five six seven eight nine ten'',
       Timestamp = 30\<rparr>]"
proof -
  let ?sys = "\<lparr>Role = ''system'', Content = ''You are a helpful assistant.'', Timestamp = 0\<rparr>"
  let ?u1 = "\<lparr>Role = ''user'', Content = concat (replicate 3990 ''w ''), Timestamp = 10\<rparr>"
  let ?a1 = "\<lparr>Role = ''assistant'', Content = ''Understood.'', Timestamp = 20\<rparr>"
  let ?u2 = "\<lparr>Role = ''user'', Content = ''one two three four five six seven eight nine ten'',
               Timestamp = 30\<rparr>"
  have w1: "length (Fields ''Understood.'') = 1"
    by (rule words_of_examples)
  have w10: "length (Fields ''one two three four five six seven eight nine ten'') = 10"
    by (rule words_of_examples)
  have s1: "addMessage \<lparr>History = [?sys], tokenCount = 5\<rparr> ''user'' (concat (replicate 3990 ''w '')) 10
      = \<lparr>History = [?sys, ?u1], tokenCount = 3995\<rparr>"
    by (simp add: addMessage_def Let_def Fields_words truncateHistory_stop
          maxConversationTokens_def)
  have s2: "addMessage \<lparr>History = [?sys, ?u1], tokenCount = 3995\<rparr> ''assistant'' ''Understood.'' 20
      = \<lparr>History = [?sys, ?u1, ?a1], tokenCount = 3996\<rparr>"
    by (simp add: addMessage_def Let_def w1 truncateHistory_stop maxConversationTokens_def)
  have t3: "truncateHistory \<lparr>History = [?sys, ?u1, ?a1, ?u2], tokenCount = 4006\<rparr>
      = \<lparr>History = [?a1, ?u2], tokenCount = 16\<rparr>"
  proof -
    have "truncateHistory \<lparr>History = [?sys, ?u1, ?a1, ?u2], tokenCount = 4006\<rparr>
        = truncateHistory \<lparr>History = [?a1, ?u2], tokenCount = 16\<rparr>"
      using truncateHistory_step [of "\<lparr>History = [?sys, ?u1, ?a1, ?u2], tokenCount = 4006\<rparr>"]
      by (simp add: maxConversationTokens_def Fields_words)
    also have "\<dots> = \<lparr>History = [?a1, ?u2], tokenCount = 16\<rparr>"
      by (rule truncateHistory_stop) (simp add: maxConversationTokens_def)
    finally show ?thesis .
  qed
  have s3: "addMessage \<lparr>History = [?sys, ?u1, ?a1], tokenCount = 3996\<rparr> ''user''
        ''one two three four five six seven eight nine ten'' 30
      = \<lparr>History = [?a1, ?u2], tokenCount = 16\<rparr>"
    by (simp add: addMessage_def Let_def w10 t3)
  show ?thesis
    by (simp only: s1 s2 s3) simp
qed

text \<open>
  C4. The claim: after every \<^verbatim>\<open>addMessage\<close> and after every load the stored
  \<open>tokenCount\<close> is at most \<open>maxConversationTokens\<close>. It fails on both paths: a
  conversation of one message of 4001 words keeps its count when a message of no
  words is appended and the truncation has run, and a file of one message of 4001
  words is loaded with the count 4001.
\<close>

theorem C4_counterexample:
  "\<not> tokenCount
        (addMessage
           \<lparr>History = [\<lparr>Role = ''system'', Content = concat (replicate 4001 ''w ''),
                        Timestamp = 0\<rparr>],
            tokenCount = 4001\<rparr>
           ''user'' [] 1) \<le> maxConversationTokens
   \<and> \<not> (case loadConversation (\<lambda>filename. Inr ''saved'')
              (\<lambda>data. Inr [\<lparr>Role = ''user'', Content = concat (replicate 4001 ''w ''),
                              Timestamp = 0\<rparr>])
              ''conversation.json'' of
          Inl err \<Rightarrow> True
        | Inr loaded \<Rightarrow>
            tokenCount (replaceWith \<lparr>History = [], tokenCount = 0\<rparr> loaded)
              \<le> maxConversationTokens)"
proof -
  have "addMessage
           \<lparr>History = [\<lparr>Role = ''system'', Content = concat (replicate 4001 ''w ''),
                        Timestamp = 0\<rparr>],
            tokenCount = 4001\<rparr>
           ''user'' [] 1 = \<lparr>History = [], tokenCount = 4001\<rparr>"
    apply (simp only: addMessage_def Let_def)
    apply (subst truncateHistory.simps)
    apply (simp add: maxConversationTokens_def words_of_examples Fields_words)
    apply (subst truncateHistory.simps)
    apply (simp add: maxConversationTokens_def)
    done
  then show ?thesis
    by (simp add: maxConversationTokens_def loadConversation_def replaceWith_def
          countTokens_def Fields_words)
qed

text \<open>
  C4, as the code has it: after \<^verbatim>\<open>addMessage\<close> the count is at most
  \<open>maxConversationTokens\<close> when more than one message is left (the loop of the
  truncation stops at one message); a load stores the word count of the messages of
  the file, and no maximum is applied.
\<close>

theorem C4_count_bounded_or_one_message:
  "(1 < length (History (addMessage c role content now))
      \<longrightarrow> tokenCount (addMessage c role content now) \<le> maxConversationTokens)
   \<and> (loadConversation files decode filename = Inr loaded
      \<longrightarrow> History (replaceWith c' loaded) = History loaded
        \<and> tokenCount (replaceWith c' loaded) = countTokens (History loaded))"
proof -
  have "tokenCount (addMessage c role content now) \<le> maxConversationTokens
      \<or> length (History (addMessage c role content now)) \<le> 1"
    unfolding addMessage_def Let_def by (rule truncateHistory_exit)
  then show ?thesis
    by (auto simp: loadConversation_def replaceWith_def split: sum.splits)
qed

theorem C4_witness:
  "1 < length (History (addMessage \<lparr>History = [\<lparr>Role = ''system'', Content = ''Be brief.'',
        Timestamp = 0\<rparr>], tokenCount = 2\<rparr> ''user'' ''hello'' 1))
   \<and> tokenCount (addMessage \<lparr>History = [\<lparr>Role = ''system'', Content = ''Be brief.'',
        Timestamp = 0\<rparr>], tokenCount = 2\<rparr> ''user'' ''hello'' 1) \<le> maxConversationTokens
   \<and> loadConversation (\<lambda>filename. Inr ''saved'')
        (\<lambda>data. Inr [\<lparr>Role = ''user'', Content = ''hello'', Timestamp = 0\<rparr>]) ''conversation.json''
      = Inr \<lparr>History = [\<lparr>Role = ''user'', Content = ''hello'', Timestamp = 0\<rparr>], tokenCount = 1\<rparr>
   \<and> tokenCount (replaceWith \<lparr>History = [], tokenCount = 0\<rparr>
        \<lparr>History = [\<lparr>Role = ''user'', Content = ''hello'', Timestamp = 0\<rparr>], tokenCount = 1\<rparr>)
      = countTokens [\<lparr>Role = ''user'', Content = ''hello'', Timestamp = 0\<rparr>]"
proof -
  have len: "1 < length (History (addMessage \<lparr>History = [\<lparr>Role = ''system'',
        Content = ''Be brief.'', Timestamp = 0\<rparr>], tokenCount = 2\<rparr> ''user'' ''hello'' 1))"
    by (simp add: addMessage_def Let_def truncateHistory.simps maxConversationTokens_def
          words_of_examples)
  have ld: "loadConversation (\<lambda>filename. Inr ''saved'')
        (\<lambda>data. Inr [\<lparr>Role = ''user'', Content = ''hello'', Timestamp = 0\<rparr>]) ''conversation.json''
      = Inr \<lparr>History = [\<lparr>Role = ''user'', Content = ''hello'', Timestamp = 0\<rparr>], tokenCount = 1\<rparr>"
    by (simp add: loadConversation_def countTokens_def words_of_examples)
  show ?thesis
    using len ld
      C4_count_bounded_or_one_message [of "\<lparr>History = [\<lparr>Role = ''system'',
        Content = ''Be brief.'', Timestamp = 0\<rparr>], tokenCount = 2\<rparr>" "''user''" "''hello''" 1
        "\<lambda>filename. Inr ''saved''"
        "\<lambda>data. Inr [\<lparr>Role = ''user'', Content = ''hello'', Timestamp = 0\<rparr>]"
        "''conversation.json''"
        "\<lparr>History = [\<lparr>Role = ''user'', Content = ''hello'', Timestamp = 0\<rparr>], tokenCount = 1\<rparr>"
        "\<lparr>History = [], tokenCount = 0\<rparr>"]
    by simp
qed

section \<open>The view of the history that is sent\<close>

lemma truncateLoop_inv:
  "i \<le> length h \<Longrightarrow> acc = sum_list (map (\<lambda>m. int (length (Fields (Content m)))) (drop i h)) \<Longrightarrow>
   \<exists>k\<le>i. truncateLoop i h m acc (drop i h) = drop k h
      \<and> (acc \<le> m \<longrightarrow> sum_list (map (\<lambda>m. int (length (Fields (Content m)))) (drop k h)) \<le> m)
      \<and> (0 < k \<longrightarrow> m < sum_list (map (\<lambda>m. int (length (Fields (Content m)))) (drop (k - 1) h)))"
proof (induction i arbitrary: acc)
  case 0
  then show ?case by simp
next
  case (Suc i)
  let ?tok = "\<lambda>m. int (length (Fields (Content m)))"
  from Suc.prems have lt: "i < length h" by simp
  have dr: "drop i h = h ! i # drop (Suc i) h"
    using lt by (simp add: Cons_nth_drop_Suc)
  show ?case
  proof (cases "acc + ?tok (h ! i) > m")
    case True
    have "truncateLoop (Suc i) h m acc (drop (Suc i) h) = drop (Suc i) h"
      using True by (simp add: Let_def)
    moreover have "m < sum_list (map ?tok (drop (Suc i - 1) h))"
      using True Suc.prems(2) dr by simp
    moreover have "acc \<le> m \<longrightarrow> sum_list (map ?tok (drop (Suc i) h)) \<le> m"
      using Suc.prems(2) by simp
    ultimately show ?thesis by (intro exI [of _ "Suc i"]) simp
  next
    case False
    have step: "truncateLoop (Suc i) h m acc (drop (Suc i) h)
        = truncateLoop i h m (acc + ?tok (h ! i)) (drop i h)"
      using False dr by (simp add: Let_def)
    have tot: "acc + ?tok (h ! i) = sum_list (map ?tok (drop i h))"
      using Suc.prems(2) dr by simp
    from Suc.IH [OF _ tot] lt obtain k where k: "k \<le> i"
      "truncateLoop i h m (acc + ?tok (h ! i)) (drop i h) = drop k h"
      "acc + ?tok (h ! i) \<le> m \<longrightarrow> sum_list (map ?tok (drop k h)) \<le> m"
      "0 < k \<longrightarrow> m < sum_list (map ?tok (drop (k - 1) h))"
      by auto
    show ?thesis
      using k False step by (intro exI [of _ k]) auto
  qed
qed

text \<open>
  C7. \<^verbatim>\<open>truncateConversation\<close> returns a suffix of the history, in its order: the
  result is \<open>drop k history\<close> for some \<open>k\<close>. The walk from the newest message back
  stops at the first message that would take the total over the ceiling: the message
  before the suffix, if there is one, does so. And the total of the suffix is not over
  the ceiling, for every ceiling that a number of tokens can be (zero or more; the
  suffix and the stop are as said for every \<^verbatim>\<open>int\<close>).
\<close>

theorem C7_suffix_within_ceiling:
  "\<exists>k\<le>length history.
     truncateConversation history ceiling = drop k history
     \<and> (0 \<le> ceiling \<longrightarrow> countTokens (truncateConversation history ceiling) \<le> ceiling)
     \<and> (0 < k \<longrightarrow> ceiling < countTokens (drop (k - 1) history))"
  using truncateLoop_inv [of "length history" history 0 ceiling]
  by (auto simp: truncateConversation_def countTokens_sum)

theorem C7_witness:
  "\<exists>k\<le>2. truncateConversation
        [\<lparr>Role = ''user'', Content = ''a b'', Timestamp = 0\<rparr>,
         \<lparr>Role = ''assistant'', Content = ''c'', Timestamp = 1\<rparr>] 1
      = drop k [\<lparr>Role = ''user'', Content = ''a b'', Timestamp = 0\<rparr>,
                \<lparr>Role = ''assistant'', Content = ''c'', Timestamp = 1\<rparr>]
     \<and> k = 1
     \<and> countTokens (truncateConversation
          [\<lparr>Role = ''user'', Content = ''a b'', Timestamp = 0\<rparr>,
           \<lparr>Role = ''assistant'', Content = ''c'', Timestamp = 1\<rparr>] 1) \<le> 1
     \<and> 1 < countTokens (drop (k - 1)
          [\<lparr>Role = ''user'', Content = ''a b'', Timestamp = 0\<rparr>,
           \<lparr>Role = ''assistant'', Content = ''c'', Timestamp = 1\<rparr>])"
proof -
  let ?h = "[\<lparr>Role = ''user'', Content = ''a b'', Timestamp = 0\<rparr>,
             \<lparr>Role = ''assistant'', Content = ''c'', Timestamp = 1\<rparr>]"
  have ev: "truncateConversation ?h 1 = [\<lparr>Role = ''assistant'', Content = ''c'', Timestamp = 1\<rparr>]"
    by code_simp
  from C7_suffix_within_ceiling [of ?h 1] obtain k where k: "k \<le> length ?h"
    "truncateConversation ?h 1 = drop k ?h"
    "(0::int) \<le> 1 \<longrightarrow> countTokens (truncateConversation ?h 1) \<le> 1"
    "0 < k \<longrightarrow> 1 < countTokens (drop (k - 1) ?h)"
    by blast
  have "k = 0 \<or> k = 1 \<or> k = 2"
    using k(1) by auto
  then have k1: "k = 1"
    using k(2) unfolding ev by auto
  have "k \<le> 2"
    using k1 by simp
  moreover have "countTokens (truncateConversation ?h 1) \<le> 1"
    using k(3) by simp
  moreover have "1 < countTokens (drop (k - 1) ?h)"
    using k(4) k1 by simp
  ultimately show ?thesis
    using k(2) k1 by blast
qed


section \<open>The decoder on a stream of lines\<close>

lemma runeWidth_zero_iff:
  "runeWidth runes s = 0 \<longleftrightarrow> (\<forall>r\<in>set runes. r = [] \<or> take (length r) s \<noteq> r)"
proof (cases "filter (\<lambda>r. r \<noteq> [] \<and> take (length r) s = r) runes")
  case Nil
  then show ?thesis
    by (auto simp: runeWidth_def filter_empty_conv)
next
  case (Cons r rs)
  then have "r \<in> set (filter (\<lambda>r. r \<noteq> [] \<and> take (length r) s = r) runes)"
    by simp
  then have "r \<in> set runes" "r \<noteq> []" "take (length r) s = r"
    by auto
  then show ?thesis
    using Cons by (auto simp: runeWidth_def)
qed

lemma runeWidth_prefix:
  assumes "runeWidth runes (a @ b) = 0"
  shows "runeWidth runes a = 0"
  unfolding runeWidth_zero_iff
proof (intro ballI)
  fix r assume r: "r \<in> set runes"
  show "r = [] \<or> take (length r) a \<noteq> r"
  proof (rule ccontr)
    assume "\<not> (r = [] \<or> take (length r) a \<noteq> r)"
    then have n: "r \<noteq> []" and t: "take (length r) a = r"
      by simp_all
    have "length (take (length r) a) = length r"
      using t by simp
    then have "length r \<le> length a"
      by simp
    then have "take (length r) (a @ b) = r"
      using t by simp
    then show False
      using assms r n unfolding runeWidth_zero_iff by blast
  qed
qed

text \<open>What is taken off are \<open>runes\<close>, and what is left begins with none.\<close>

lemma trimRunes_strips:
  "\<exists>pre. set pre \<subseteq> set runes \<and> s = concat pre @ trimRunes runes s
     \<and> runeWidth runes (trimRunes runes s) = 0"
proof (induction runes s rule: trimRunes.induct)
  case (1 runes s)
  show ?case
  proof (cases "0 < runeWidth runes s")
    case True
    from "1.IH" [OF True] obtain pre where pre: "set pre \<subseteq> set runes"
      "drop (runeWidth runes s) s = concat pre @ trimRunes runes (drop (runeWidth runes s) s)"
      "runeWidth runes (trimRunes runes (drop (runeWidth runes s) s)) = 0"
      by blast
    have step: "trimRunes runes s = trimRunes runes (drop (runeWidth runes s) s)"
      using True by (subst trimRunes.simps) simp
    have hd: "take (runeWidth runes s) s \<in> set runes"
      using runeWidth_pos [OF True] by simp
    have "s = concat (take (runeWidth runes s) s # pre) @ trimRunes runes s"
      using pre(2) step append_take_drop_id [of "runeWidth runes s" s] by simp
    moreover have "set (take (runeWidth runes s) s # pre) \<subseteq> set runes"
      using hd pre(1) by simp
    ultimately show ?thesis
      using pre(3) step by metis
  next
    case False
    then have "trimRunes runes s = s"
      by (subst trimRunes.simps) simp
    then show ?thesis
      using False by (intro exI [of _ "[]"]) simp
  qed
qed

text \<open>
  \<^const>\<open>TrimSpace\<close> takes white space code points off the front and off the end, and
  nothing else, and leaves a string that neither begins nor ends with one.
\<close>

lemma TrimSpace_trims:
  "\<exists>pre post. set pre \<subseteq> set spaceRunes \<and> set post \<subseteq> set spaceRunes
     \<and> s = concat pre @ TrimSpace s @ concat post
     \<and> \<not> startsWithSpace (TrimSpace s) \<and> \<not> endsWithSpace (TrimSpace s)"
proof -
  let ?t = "trimRunes spaceRunes s"
  let ?u = "trimRunes (map rev spaceRunes) (rev ?t)"
  obtain pre where pre: "set pre \<subseteq> set spaceRunes" "s = concat pre @ ?t"
    "runeWidth spaceRunes ?t = 0"
    using trimRunes_strips [of spaceRunes s] by blast
  obtain q where q: "set q \<subseteq> set (map rev spaceRunes)" "rev ?t = concat q @ ?u"
    "runeWidth (map rev spaceRunes) ?u = 0"
    using trimRunes_strips [of "map rev spaceRunes" "rev ?t"] by blast
  have ts: "TrimSpace s = rev ?u"
    by (simp add: TrimSpace_def)
  have "rev (rev ?t) = rev (concat q @ ?u)"
    using q(2) by simp
  then have t: "?t = rev ?u @ concat (map rev (rev q))"
    by (simp add: rev_concat)
  have post: "set (map rev (rev q)) \<subseteq> set spaceRunes"
    using q(1) by auto
  have "runeWidth spaceRunes (rev ?u) = 0"
    using pre(3) t runeWidth_prefix [of spaceRunes "rev ?u" "concat (map rev (rev q))"]
    by simp
  then have "\<not> startsWithSpace (TrimSpace s)"
    by (simp add: startsWithSpace_def ts)
  moreover have "\<not> endsWithSpace (TrimSpace s)"
    using q(3) by (simp add: endsWithSpace_def ts)
  moreover have "s = concat pre @ TrimSpace s @ concat (map rev (rev q))"
    using pre(2) t ts by simp
  ultimately show ?thesis
    using pre(1) post by blast
qed

text \<open>The texts of the examples have nothing to trim.\<close>

lemma trimmed_examples:
  "TrimSpace ''Hi'' = ''Hi''"
  "TrimSpace ''Hi there'' = ''Hi there''"
  "TrimSpace ''exit'' = ''exit''"
  "TrimSpace ''/load talk.json'' = ''/load talk.json''"
  by code_simp+


lemma Scan_line:
  assumes "CHR 0x0A \<notin> set l" "length l < MaxScanTokenSize"
  shows "Scan \<lparr>pending = l @ CHR 0x0A # r, srcErr = e, scanErr = x\<rparr>
       = (Some (dropCR l), \<lparr>pending = r, srcErr = e, scanErr = x\<rparr>)"
proof -
  have "takeWhile (\<lambda>c. c \<noteq> CHR 0x0A) (l @ CHR 0x0A # r) = l"
    using assms(1) by (subst takeWhile_append2) auto
  then show ?thesis
    using assms(2) by (simp add: Scan_def Let_def)
qed

lemma Scan_end:
  "Scan \<lparr>pending = [], srcErr = e, scanErr = x\<rparr>
     = (None, \<lparr>pending = [], srcErr = e, scanErr = e\<rparr>)"
  by (simp add: Scan_def Let_def MaxScanTokenSize_def)

lemma sentinel_iff:
  "(HasPrefix line ''data: '' \<and> TrimPrefix line ''data: '' = ''[DONE]'')
     = (line = ''data: [DONE]'')"
proof
  assume a: "HasPrefix line ''data: '' \<and> TrimPrefix line ''data: '' = ''[DONE]''"
  then have "take (length ''data: '') line = ''data: ''"
    "drop (length ''data: '') line = ''[DONE]''"
    by (auto simp: HasPrefix_def TrimPrefix_def)
  then show "line = ''data: [DONE]''"
    using append_take_drop_id [of "length ''data: ''" line] by simp
next
  assume "line = ''data: [DONE]''"
  then show "HasPrefix line ''data: '' \<and> TrimPrefix line ''data: '' = ''[DONE]''"
    by (simp add: HasPrefix_def TrimPrefix_def)
qed

lemma streamLoop_step:
  assumes "plainLine l"
  shows "streamLoop um \<lparr>pending = l @ CHR 0x0A # r, srcErr = e, scanErr = None\<rparr> buffer lastError
       = streamLoop um \<lparr>pending = r, srcErr = e, scanErr = None\<rparr>
           (buffer @ fragmentOf um (dropCR l))
           (case decodeErrorOf um (dropCR l) of None \<Rightarrow> lastError | Some err \<Rightarrow> Some err)"
proof -
  have sc: "Scan \<lparr>pending = l @ CHR 0x0A # r, srcErr = e, scanErr = None\<rparr>
       = (Some (dropCR l), \<lparr>pending = r, srcErr = e, scanErr = None\<rparr>)"
    using assms by (simp add: Scan_line plainLine_def)
  have ns: "\<not> (HasPrefix (dropCR l) ''data: '' \<and> TrimPrefix (dropCR l) ''data: '' = ''[DONE]'')"
    using assms by (simp add: sentinel_iff plainLine_def)
  show ?thesis
    apply (subst streamLoop.simps)
    apply (simp only: sc prod.case option.case)
    using ns
    apply (auto simp: fragmentOf_def decodeErrorOf_def Let_def split: sum.splits)
    done
qed

lemma streamLoop_lines:
  assumes "list_all plainLine ls"
  shows "streamLoop um
           \<lparr>pending = concat (map (\<lambda>l. l @ [CHR 0x0A]) ls) @ tail, srcErr = e, scanErr = None\<rparr>
           buffer lastError
       = streamLoop um \<lparr>pending = tail, srcErr = e, scanErr = None\<rparr>
           (buffer @ concat (map (\<lambda>l. fragmentOf um (dropCR l)) ls))
           (lastDecodeError um lastError (map dropCR ls))"
  using assms
proof (induction ls arbitrary: buffer lastError)
  case Nil
  then show ?case by simp
next
  case (Cons l ls)
  then have pl: "plainLine l" and rest: "list_all plainLine ls"
    by simp_all
  show ?case
    using streamLoop_step [OF pl, of um "concat (map (\<lambda>l. l @ [CHR 0x0A]) ls) @ tail" e
        buffer lastError]
      Cons.IH [OF rest]
    by simp
qed

lemma streamLoop_sentinel:
  "streamLoop um \<lparr>pending = ''data: [DONE]'' @ CHR 0x0A # r, srcErr = e, scanErr = None\<rparr>
       buffer lastError
     = (\<lparr>pending = r, srcErr = e, scanErr = None\<rparr>, buffer, lastError)"
proof -
  have sc: "Scan \<lparr>pending = ''data: [DONE]'' @ CHR 0x0A # r, srcErr = e, scanErr = None\<rparr>
       = (Some ''data: [DONE]'', \<lparr>pending = r, srcErr = e, scanErr = None\<rparr>)"
    using Scan_line [of "''data: [DONE]''" r e None]
    by (simp add: MaxScanTokenSize_def dropCR_def)
  show ?thesis
    apply (subst streamLoop.simps)
    apply (simp only: sc prod.case option.case)
    apply (simp add: HasPrefix_def TrimPrefix_def)
    done
qed

lemma streamLoop_end:
  "streamLoop um \<lparr>pending = [], srcErr = e, scanErr = None\<rparr> buffer lastError
     = (\<lparr>pending = [], srcErr = e, scanErr = e\<rparr>, buffer, lastError)"
  apply (subst streamLoop.simps)
  apply (simp only: Scan_end prod.case option.case)
  done

text \<open>
  A stream of lines that ends with the sentinel line: the result is the error of the
  last data line that did not decode, if there is one, and the trimmed fragments
  otherwise.
\<close>

lemma decode_to_sentinel:
  assumes "list_all plainLine ls"
  shows "processStreamResponse um
           \<lparr>bytes = concat (map (\<lambda>l. l @ [CHR 0x0A]) ls) @ ''data: [DONE]'' @ [CHR 0x0A] @ rest,
            readErr = e\<rparr>
       = (case lastDecodeError um None (map dropCR ls) of
            None \<Rightarrow> (TrimSpace (concat (map (\<lambda>l. fragmentOf um (dropCR l)) ls)), None)
          | Some err \<Rightarrow> ([], Some (ErrorProcessingStream err)))"
  using streamLoop_lines [OF assms, of um "''data: [DONE]'' @ [CHR 0x0A] @ rest" e "[]" None]
    streamLoop_sentinel [of um rest e]
  by (simp add: processStreamResponse_def NewScanner_def split: option.splits)

text \<open>The same stream of lines, ended by the end of the reader and not by the sentinel.\<close>

lemma decode_to_end:
  assumes "list_all plainLine ls"
  shows "processStreamResponse um
           \<lparr>bytes = concat (map (\<lambda>l. l @ [CHR 0x0A]) ls), readErr = None\<rparr>
       = (case lastDecodeError um None (map dropCR ls) of
            None \<Rightarrow> (TrimSpace (concat (map (\<lambda>l. fragmentOf um (dropCR l)) ls)), None)
          | Some err \<Rightarrow> ([], Some (ErrorProcessingStream err)))"
  using streamLoop_lines [OF assms, of um "[]" None "[]" None] streamLoop_end [of um None]
  by (simp add: processStreamResponse_def NewScanner_def split: option.splits)

text \<open>The records of the examples, decoded.\<close>

lemma unmarshal_Hi:
  "jsonUnmarshal ''{\"choices\":[{\"delta\":{\"content\":\"Hi\"}}]}''
     = Inr [(''choices'', JArray [JObject [(''delta'', JObject [(''content'', JString ''Hi'')])]])]"
  by code_simp

lemma unmarshal_there:
  "jsonUnmarshal ''{\"choices\":[{\"delta\":{\"content\":\" there\"}}]}''
     = Inr [(''choices'',
             JArray [JObject [(''delta'', JObject [(''content'', JString '' there'')])]])]"
  by code_simp

lemma unmarshal_bad: "jsonUnmarshal ''{bad'' = Inl SyntaxError"
  by code_simp

lemma line_Hi:
  "plainLine ''data: {\"choices\":[{\"delta\":{\"content\":\"Hi\"}}]}''
   \<and> dropCR ''data: {\"choices\":[{\"delta\":{\"content\":\"Hi\"}}]}''
       = ''data: {\"choices\":[{\"delta\":{\"content\":\"Hi\"}}]}''
   \<and> fragmentOf jsonUnmarshal ''data: {\"choices\":[{\"delta\":{\"content\":\"Hi\"}}]}'' = ''Hi''
   \<and> decodeErrorOf jsonUnmarshal ''data: {\"choices\":[{\"delta\":{\"content\":\"Hi\"}}]}'' = None"
  by (simp add: plainLine_def dropCR_def MaxScanTokenSize_def fragmentOf_def decodeErrorOf_def
        HasPrefix_def TrimPrefix_def unmarshal_Hi extractContent_def)

lemma line_there:
  "plainLine ''data: {\"choices\":[{\"delta\":{\"content\":\" there\"}}]}''
   \<and> dropCR ''data: {\"choices\":[{\"delta\":{\"content\":\" there\"}}]}''
       = ''data: {\"choices\":[{\"delta\":{\"content\":\" there\"}}]}''
   \<and> fragmentOf jsonUnmarshal ''data: {\"choices\":[{\"delta\":{\"content\":\" there\"}}]}''
       = '' there''
   \<and> decodeErrorOf jsonUnmarshal ''data: {\"choices\":[{\"delta\":{\"content\":\" there\"}}]}''
       = None"
  by (simp add: plainLine_def dropCR_def MaxScanTokenSize_def fragmentOf_def decodeErrorOf_def
        HasPrefix_def TrimPrefix_def unmarshal_there extractContent_def)

lemma line_bad:
  "plainLine ''data: {bad'' \<and> dropCR ''data: {bad'' = ''data: {bad''
   \<and> fragmentOf jsonUnmarshal ''data: {bad'' = []
   \<and> decodeErrorOf jsonUnmarshal ''data: {bad'' = Some SyntaxError"
  by (simp add: plainLine_def dropCR_def MaxScanTokenSize_def fragmentOf_def decodeErrorOf_def
        HasPrefix_def TrimPrefix_def unmarshal_bad)

text \<open>
  C3. The claim: a stream that reaches the sentinel line \<^verbatim>\<open>data: [DONE]\<close> is decoded
  with success, also when a data line before it was malformed. The code returns the
  error: the stream below has a fragment, a malformed data line and the sentinel, and
  the result is no text and the error of the malformed line.
\<close>

theorem C3_counterexample:
  "processStreamResponse jsonUnmarshal
     \<lparr>bytes = ''data: {\"choices\":[{\"delta\":{\"content\":\"Hi\"}}]}'' @ [CHR 0x0A]
              @ ''data: {bad'' @ [CHR 0x0A]
              @ ''data: [DONE]'' @ [CHR 0x0A],
      readErr = None\<rparr>
   = ([], Some (ErrorProcessingStream SyntaxError))"
  using decode_to_sentinel [of "[''data: {\"choices\":[{\"delta\":{\"content\":\"Hi\"}}]}'',
      ''data: {bad'']" jsonUnmarshal "[]" None]
  by (simp add: line_Hi line_bad)

text \<open>
  C3, as the code has it. The stream is the lines \<open>ls\<close>, each with its line end, then
  the sentinel line, then anything. When no data line of \<open>ls\<close> is malformed, the
  result is the fragments of \<open>ls\<close>, trimmed, and no error. When one is, the result is
  no text and the error that wraps the decode error of the last malformed line: the
  sentinel does not clear it.
\<close>

theorem C3_sentinel_keeps_decode_error:
  assumes "list_all plainLine ls"
  shows "(lastDecodeError um None (map dropCR ls) = None \<longrightarrow>
            processStreamResponse um
              \<lparr>bytes = concat (map (\<lambda>l. l @ [CHR 0x0A]) ls) @ ''data: [DONE]'' @ [CHR 0x0A] @ rest,
               readErr = e\<rparr>
            = (TrimSpace (concat (map (\<lambda>l. fragmentOf um (dropCR l)) ls)), None))
       \<and> (\<forall>err. lastDecodeError um None (map dropCR ls) = Some err \<longrightarrow>
            processStreamResponse um
              \<lparr>bytes = concat (map (\<lambda>l. l @ [CHR 0x0A]) ls) @ ''data: [DONE]'' @ [CHR 0x0A] @ rest,
               readErr = e\<rparr>
            = ([], Some (ErrorProcessingStream err)))"
  using decode_to_sentinel [OF assms, of um rest e] by simp

theorem C3_witness:
  "list_all plainLine [''data: {\"choices\":[{\"delta\":{\"content\":\"Hi\"}}]}'', ''data: {bad'']
   \<and> lastDecodeError jsonUnmarshal None
        (map dropCR [''data: {\"choices\":[{\"delta\":{\"content\":\"Hi\"}}]}'', ''data: {bad''])
      = Some SyntaxError
   \<and> processStreamResponse jsonUnmarshal
        \<lparr>bytes = ''data: {\"choices\":[{\"delta\":{\"content\":\"Hi\"}}]}'' @ [CHR 0x0A]
                 @ ''data: {bad'' @ [CHR 0x0A] @ ''data: [DONE]'' @ [CHR 0x0A] @ ''ignored'',
         readErr = None\<rparr>
      = ([], Some (ErrorProcessingStream SyntaxError))
   \<and> lastDecodeError jsonUnmarshal None
        (map dropCR [''data: {\"choices\":[{\"delta\":{\"content\":\"Hi\"}}]}'']) = None
   \<and> processStreamResponse jsonUnmarshal
        \<lparr>bytes = ''data: {\"choices\":[{\"delta\":{\"content\":\"Hi\"}}]}'' @ [CHR 0x0A]
                 @ ''data: [DONE]'' @ [CHR 0x0A] @ ''ignored'',
         readErr = None\<rparr>
      = (''Hi'', None)"
proof -
  have p2: "list_all plainLine
      [''data: {\"choices\":[{\"delta\":{\"content\":\"Hi\"}}]}'', ''data: {bad'']"
    by (simp add: line_Hi line_bad)
  have p1: "list_all plainLine [''data: {\"choices\":[{\"delta\":{\"content\":\"Hi\"}}]}'']"
    by (simp add: line_Hi)
  have t: "TrimSpace ''Hi'' = ''Hi''"
    by (rule trimmed_examples)
  show ?thesis
    using p2 C3_sentinel_keeps_decode_error [OF p2, of jsonUnmarshal "''ignored''" None]
      C3_sentinel_keeps_decode_error [OF p1, of jsonUnmarshal "''ignored''" None]
    by (simp add: line_Hi line_bad t)
qed

text \<open>A record whose fragment has white space at both ends, U+00A0 among it.\<close>

lemma unmarshal_padded:
  "jsonUnmarshal (''{\"choices\":[{\"delta\":{\"content\":\"  Hi there''
      @ [CHR 0xC2, CHR 0xA0] @ '' \"}}]}'')
     = Inr [(''choices'',
             JArray [JObject [(''delta'',
               JObject [(''content'', JString (''  Hi there'' @ [CHR 0xC2, CHR 0xA0] @ '' ''))])]])]"
  by code_simp

lemma trimmed_padded: "TrimSpace (''  Hi there'' @ [CHR 0xC2, CHR 0xA0] @ '' '') = ''Hi there''"
  by code_simp

lemma line_padded:
  "plainLine (''data: {\"choices\":[{\"delta\":{\"content\":\"  Hi there''
      @ [CHR 0xC2, CHR 0xA0] @ '' \"}}]}'')
   \<and> dropCR (''data: {\"choices\":[{\"delta\":{\"content\":\"  Hi there''
      @ [CHR 0xC2, CHR 0xA0] @ '' \"}}]}'')
       = ''data: {\"choices\":[{\"delta\":{\"content\":\"  Hi there''
      @ [CHR 0xC2, CHR 0xA0] @ '' \"}}]}''
   \<and> fragmentOf jsonUnmarshal (''data: {\"choices\":[{\"delta\":{\"content\":\"  Hi there''
      @ [CHR 0xC2, CHR 0xA0] @ '' \"}}]}'')
       = ''  Hi there'' @ [CHR 0xC2, CHR 0xA0] @ '' ''
   \<and> decodeErrorOf jsonUnmarshal (''data: {\"choices\":[{\"delta\":{\"content\":\"  Hi there''
      @ [CHR 0xC2, CHR 0xA0] @ '' \"}}]}'') = None"
  using unmarshal_padded
  by (simp add: plainLine_def dropCR_def MaxScanTokenSize_def fragmentOf_def decodeErrorOf_def
        HasPrefix_def TrimPrefix_def extractContent_def)

lemma Hi_there_is_trimmed: "\<not> startsWithSpace ''Hi there'' \<and> \<not> endsWithSpace ''Hi there''"
  by code_simp

text \<open>
  C6. The decoder puts the fragments of the data lines one after the other, in the
  order of the lines and with nothing between them, and trims the text. For lines
  \<open>ls\<close> of which no data line is malformed, ended by the sentinel line or by the end
  of the reader, the result is one text and no error; the fragments of the lines, one
  after the other, are that text with white space code points before it and after
  it, and the text neither begins nor ends with a white space code point. The three
  lines of the example give \<open>Hi there\<close> and no error, and so does the one fragment
  that has \<open>Hi there\<close> between two spaces in front and U+00A0 and a space behind.
\<close>

theorem C6_fragments_in_order_trimmed:
  "(list_all plainLine ls \<and> lastDecodeError um None (map dropCR ls) = None \<longrightarrow>
      (\<exists>text pre post.
          processStreamResponse um
            \<lparr>bytes = concat (map (\<lambda>l. l @ [CHR 0x0A]) ls) @ ''data: [DONE]'' @ [CHR 0x0A] @ rest,
             readErr = e\<rparr> = (text, None)
        \<and> processStreamResponse um
            \<lparr>bytes = concat (map (\<lambda>l. l @ [CHR 0x0A]) ls), readErr = None\<rparr> = (text, None)
        \<and> text = TrimSpace (concat (map (\<lambda>l. fragmentOf um (dropCR l)) ls))
        \<and> set pre \<subseteq> set spaceRunes \<and> set post \<subseteq> set spaceRunes
        \<and> concat (map (\<lambda>l. fragmentOf um (dropCR l)) ls) = concat pre @ text @ concat post
        \<and> \<not> startsWithSpace text \<and> \<not> endsWithSpace text))
   \<and> processStreamResponse jsonUnmarshal
       \<lparr>bytes = ''data: {\"choices\":[{\"delta\":{\"content\":\"Hi\"}}]}'' @ [CHR 0x0A]
                @ ''data: {\"choices\":[{\"delta\":{\"content\":\" there\"}}]}'' @ [CHR 0x0A]
                @ ''data: [DONE]'' @ [CHR 0x0A],
        readErr = None\<rparr>
     = (''Hi there'', None)
   \<and> processStreamResponse jsonUnmarshal
       \<lparr>bytes = ''data: {\"choices\":[{\"delta\":{\"content\":\"  Hi there''
                  @ [CHR 0xC2, CHR 0xA0] @ '' \"}}]}'' @ [CHR 0x0A]
                @ ''data: [DONE]'' @ [CHR 0x0A],
        readErr = None\<rparr>
     = (''Hi there'', None)"
proof -
  have ex: "processStreamResponse jsonUnmarshal
       \<lparr>bytes = ''data: {\"choices\":[{\"delta\":{\"content\":\"Hi\"}}]}'' @ [CHR 0x0A]
                @ ''data: {\"choices\":[{\"delta\":{\"content\":\" there\"}}]}'' @ [CHR 0x0A]
                @ ''data: [DONE]'' @ [CHR 0x0A],
        readErr = None\<rparr>
     = (''Hi there'', None)"
    using decode_to_sentinel [of "[''data: {\"choices\":[{\"delta\":{\"content\":\"Hi\"}}]}'',
        ''data: {\"choices\":[{\"delta\":{\"content\":\" there\"}}]}'']" jsonUnmarshal "[]" None]
    by (simp add: line_Hi line_there trimmed_examples)
  have pad: "processStreamResponse jsonUnmarshal
       \<lparr>bytes = ''data: {\"choices\":[{\"delta\":{\"content\":\"  Hi there''
                  @ [CHR 0xC2, CHR 0xA0] @ '' \"}}]}'' @ [CHR 0x0A]
                @ ''data: [DONE]'' @ [CHR 0x0A],
        readErr = None\<rparr>
     = (''Hi there'', None)"
    using decode_to_sentinel [of "[''data: {\"choices\":[{\"delta\":{\"content\":\"  Hi there''
        @ [CHR 0xC2, CHR 0xA0] @ '' \"}}]}'']" jsonUnmarshal "[]" None]
      line_padded trimmed_padded
    by simp
  have gen: "\<exists>text pre post.
          processStreamResponse um
            \<lparr>bytes = concat (map (\<lambda>l. l @ [CHR 0x0A]) ls) @ ''data: [DONE]'' @ [CHR 0x0A] @ rest,
             readErr = e\<rparr> = (text, None)
        \<and> processStreamResponse um
            \<lparr>bytes = concat (map (\<lambda>l. l @ [CHR 0x0A]) ls), readErr = None\<rparr> = (text, None)
        \<and> text = TrimSpace (concat (map (\<lambda>l. fragmentOf um (dropCR l)) ls))
        \<and> set pre \<subseteq> set spaceRunes \<and> set post \<subseteq> set spaceRunes
        \<and> concat (map (\<lambda>l. fragmentOf um (dropCR l)) ls) = concat pre @ text @ concat post
        \<and> \<not> startsWithSpace text \<and> \<not> endsWithSpace text"
    if plain: "list_all plainLine ls"
      and decoded: "lastDecodeError um None (map dropCR ls) = None"
  proof -
    let ?f = "concat (map (\<lambda>l. fragmentOf um (dropCR l)) ls)"
    have a: "processStreamResponse um
            \<lparr>bytes = concat (map (\<lambda>l. l @ [CHR 0x0A]) ls) @ ''data: [DONE]'' @ [CHR 0x0A] @ rest,
             readErr = e\<rparr> = (TrimSpace ?f, None)"
      using decode_to_sentinel [OF plain, of um rest e] decoded by simp
    have b: "processStreamResponse um
            \<lparr>bytes = concat (map (\<lambda>l. l @ [CHR 0x0A]) ls), readErr = None\<rparr>
          = (TrimSpace ?f, None)"
      using decode_to_end [OF plain, of um] decoded by simp
    from TrimSpace_trims [of ?f] obtain pre post where
      "set pre \<subseteq> set spaceRunes" "set post \<subseteq> set spaceRunes"
      "?f = concat pre @ TrimSpace ?f @ concat post"
      "\<not> startsWithSpace (TrimSpace ?f)" "\<not> endsWithSpace (TrimSpace ?f)"
      by blast
    then show ?thesis
      using a b by blast
  qed
  show ?thesis
    using ex pad gen by blast
qed

theorem C6_witness:
  "list_all plainLine [''data: {\"choices\":[{\"delta\":{\"content\":\"  Hi there''
       @ [CHR 0xC2, CHR 0xA0] @ '' \"}}]}'']
   \<and> lastDecodeError jsonUnmarshal None
        (map dropCR [''data: {\"choices\":[{\"delta\":{\"content\":\"  Hi there''
           @ [CHR 0xC2, CHR 0xA0] @ '' \"}}]}'']) = None
   \<and> processStreamResponse jsonUnmarshal
        \<lparr>bytes = ''data: {\"choices\":[{\"delta\":{\"content\":\"  Hi there''
                   @ [CHR 0xC2, CHR 0xA0] @ '' \"}}]}'' @ [CHR 0x0A],
         readErr = None\<rparr>
      = (''Hi there'', None)
   \<and> (\<exists>pre post. set pre \<subseteq> set spaceRunes \<and> set post \<subseteq> set spaceRunes
        \<and> ''  Hi there'' @ [CHR 0xC2, CHR 0xA0] @ '' '' = concat pre @ ''Hi there'' @ concat post)
   \<and> \<not> startsWithSpace ''Hi there'' \<and> \<not> endsWithSpace ''Hi there''"
proof -
  let ?l = "''data: {\"choices\":[{\"delta\":{\"content\":\"  Hi there''
       @ [CHR 0xC2, CHR 0xA0] @ '' \"}}]}''"
  have p: "list_all plainLine [?l]"
    using line_padded by simp
  have n: "lastDecodeError jsonUnmarshal None (map dropCR [?l]) = None"
    using line_padded by simp
  have f: "concat (map (\<lambda>l. fragmentOf jsonUnmarshal (dropCR l)) [?l])
      = ''  Hi there'' @ [CHR 0xC2, CHR 0xA0] @ '' ''"
    using line_padded by simp
  from C6_fragments_in_order_trimmed [of "[?l]" jsonUnmarshal "[]" None] p n
  obtain answer before after where t:
    "processStreamResponse jsonUnmarshal
       \<lparr>bytes = concat (map (\<lambda>l. l @ [CHR 0x0A]) [?l]), readErr = None\<rparr> = (answer, None)"
    "answer = TrimSpace (concat (map (\<lambda>l. fragmentOf jsonUnmarshal (dropCR l)) [?l]))"
    "set before \<subseteq> set spaceRunes" "set after \<subseteq> set spaceRunes"
    "concat (map (\<lambda>l. fragmentOf jsonUnmarshal (dropCR l)) [?l])
       = concat before @ answer @ concat after"
    "\<not> startsWithSpace answer" "\<not> endsWithSpace answer"
    by blast
  have tx: "answer = ''Hi there''"
    using t(2) trimmed_padded unfolding f by simp
  have "processStreamResponse jsonUnmarshal \<lparr>bytes = ?l @ [CHR 0x0A], readErr = None\<rparr>
      = (''Hi there'', None)"
    using t(1) tx by simp
  moreover have "\<exists>pre post. set pre \<subseteq> set spaceRunes \<and> set post \<subseteq> set spaceRunes
        \<and> ''  Hi there'' @ [CHR 0xC2, CHR 0xA0] @ '' '' = concat pre @ ''Hi there'' @ concat post"
    using t(3,4,5) tx unfolding f by blast
  moreover have "\<not> startsWithSpace ''Hi there''" "\<not> endsWithSpace ''Hi there''"
    using t(6,7) tx by simp_all
  ultimately show ?thesis
    using p n by simp
qed

section \<open>The dispatcher and its attempts\<close>

lemma retryLoop_done:
  "\<not> attempt < maxRetries \<Longrightarrow>
   retryLoop um env c attempt err b tr = (([], Some (FailedAfterAttempts maxRetries err)), tr)"
  by (subst retryLoop.simps) simp

lemma retryLoop_cancelled:
  "attempt < maxRetries \<Longrightarrow> selected (env attempt) = CtxDone ctxErr \<Longrightarrow>
   retryLoop um env c attempt err b tr = (([], Some ctxErr), tr)"
  by (subst retryLoop.simps) simp

lemma retryLoop_success:
  "attempt < maxRetries \<Longrightarrow> selected (env attempt) = Tick \<Longrightarrow>
   getAIResponse um (sent (env attempt)) = (r, None) \<Longrightarrow>
   retryLoop um env c attempt err b tr
     = ((r, None), tr @ [SendRequest (truncateConversation (getHistory c) maxTokens)])"
  by (subst retryLoop.simps) (simp add: Let_def)

lemma retryLoop_failed:
  "attempt < maxRetries \<Longrightarrow> selected (env attempt) = Tick \<Longrightarrow>
   getAIResponse um (sent (env attempt)) = (r, Some e) \<Longrightarrow>
   retryLoop um env c attempt err b tr
     = (if attempt < maxRetries - 1 then
          retryLoop um env c (Suc attempt) (Some e) (b * backoffFactor)
            (tr @ [SendRequest (truncateConversation (getHistory c) maxTokens),
                   LogAttemptFailed (Suc attempt) e,
                   LogRetrying (b + jitter (env attempt)), Sleep (b + jitter (env attempt))])
        else
          retryLoop um env c (Suc attempt) (Some e) b
            (tr @ [SendRequest (truncateConversation (getHistory c) maxTokens),
                   LogAttemptFailed (Suc attempt) e]))"
  by (subst retryLoop.simps) (simp add: Let_def)

text \<open>Whatever the world does, text is returned only without an error.\<close>

lemma retryLoop_all_or_nothing:
  "maxRetries - attempt = n \<Longrightarrow>
   snd (fst (retryLoop um env c attempt err b tr)) \<noteq> None \<Longrightarrow>
   fst (fst (retryLoop um env c attempt err b tr)) = []"
proof (induction n arbitrary: attempt err b tr)
  case 0
  then show ?case by (simp add: retryLoop_done)
next
  case (Suc n)
  then have lt: "attempt < maxRetries" and nx: "maxRetries - Suc attempt = n"
    by simp_all
  show ?case
  proof (cases "selected (env attempt)")
    case (CtxDone ctxErr)
    then show ?thesis
      using lt by (simp add: retryLoop_cancelled)
  next
    case Tick
    obtain r x where g: "getAIResponse um (sent (env attempt)) = (r, x)"
      by (cases "getAIResponse um (sent (env attempt))")
    show ?thesis
    proof (cases x)
      case None
      then show ?thesis
        using Suc.prems(2) lt Tick g by (simp add: retryLoop_success)
    next
      case (Some e)
      show ?thesis
        using Suc.prems(2) Suc.IH [OF nx] lt Tick g Some
        by (simp add: retryLoop_failed split: if_splits)
    qed
  qed
qed

text \<open>The three attempts when each one fails, with what they do to the world.\<close>

lemma three_failed_attempts:
  assumes "selected (env 0) = Tick" and "selected (env (Suc 0)) = Tick"
    and "selected (env (Suc (Suc 0))) = Tick"
    and "getAIResponse um (sent (env 0)) = (r0, Some e0)"
    and "getAIResponse um (sent (env (Suc 0))) = (r1, Some e1)"
    and "getAIResponse um (sent (env (Suc (Suc 0)))) = (r2, Some e2)"
  shows "getAIResponseWithRetry um env c =
    (([], Some (FailedAfterAttempts 3 (Some e2))),
     [SendRequest (truncateConversation (getHistory c) maxTokens), LogAttemptFailed 1 e0,
      LogRetrying (initialBackoff + jitter (env 0)), Sleep (initialBackoff + jitter (env 0)),
      SendRequest (truncateConversation (getHistory c) maxTokens), LogAttemptFailed 2 e1,
      LogRetrying (initialBackoff * backoffFactor + jitter (env 1)),
      Sleep (initialBackoff * backoffFactor + jitter (env 1)),
      SendRequest (truncateConversation (getHistory c) maxTokens), LogAttemptFailed 3 e2])"
  using assms unfolding getAIResponseWithRetry_def
  by (simp add: retryLoop_failed retryLoop_done maxRetries_def)

lemma failed_attempt:
  "snd (getAIResponse um response) \<noteq> None \<Longrightarrow>
   \<exists>r e. getAIResponse um response = (r, Some e)"
  by (cases "getAIResponse um response") auto

text \<open>
  C5. When the rate limiter admits every attempt and every attempt fails, the
  dispatcher sends exactly \<open>maxRetries\<close> requests and returns the empty string with
  the error that names \<open>maxRetries\<close> and wraps the error of the last attempt. And for
  any world at all, a result with an error has the empty string as its text.
\<close>

theorem C5_all_attempts_fail:
  assumes "\<forall>k<maxRetries. selected (env k) = Tick
             \<and> snd (getAIResponse um (sent (env k))) \<noteq> None"
  shows "fst (getAIResponseWithRetry um env c)
           = ([], Some (FailedAfterAttempts maxRetries
                          (snd (getAIResponse um (sent (env (maxRetries - 1)))))))
       \<and> length (filter isSendRequest (snd (getAIResponseWithRetry um env c))) = maxRetries
       \<and> (snd (fst (getAIResponseWithRetry um env' c')) \<noteq> None
            \<longrightarrow> fst (fst (getAIResponseWithRetry um env' c')) = [])"
proof -
  have a: "selected (env 0) = Tick" "selected (env (Suc 0)) = Tick"
    "selected (env (Suc (Suc 0))) = Tick"
    using assms by (simp_all add: maxRetries_def)
  obtain r0 e0 where g0: "getAIResponse um (sent (env 0)) = (r0, Some e0)"
    using assms failed_attempt [of um "sent (env 0)"] by (auto simp: maxRetries_def)
  obtain r1 e1 where g1: "getAIResponse um (sent (env (Suc 0))) = (r1, Some e1)"
    using assms failed_attempt [of um "sent (env (Suc 0))"] by (auto simp: maxRetries_def)
  obtain r2 e2 where g2: "getAIResponse um (sent (env (Suc (Suc 0)))) = (r2, Some e2)"
    using assms failed_attempt [of um "sent (env (Suc (Suc 0)))"] by (auto simp: maxRetries_def)
  have last: "env (maxRetries - 1) = env (Suc (Suc 0))"
    by (simp add: maxRetries_def numeral_2_eq_2)
  have "fst (getAIResponseWithRetry um env c)
           = ([], Some (FailedAfterAttempts maxRetries
                          (snd (getAIResponse um (sent (env (maxRetries - 1)))))))"
    unfolding last by (simp add: three_failed_attempts [OF a g0 g1 g2] g2 maxRetries_def)
  moreover have "length (filter isSendRequest (snd (getAIResponseWithRetry um env c))) = maxRetries"
    by (simp add: three_failed_attempts [OF a g0 g1 g2] maxRetries_def)
  moreover have "snd (fst (getAIResponseWithRetry um env' c')) \<noteq> None
            \<longrightarrow> fst (fst (getAIResponseWithRetry um env' c')) = []"
    unfolding getAIResponseWithRetry_def
    using retryLoop_all_or_nothing [of 0 maxRetries um env' c' None initialBackoff "[]"]
    by simp
  ultimately show ?thesis by blast
qed

theorem C5_witness:
  "fst (getAIResponseWithRetry jsonUnmarshal (\<lambda>k. refusedAttempt) briefConversation)
     = ([], Some (FailedAfterAttempts 3
                    (Some (FailedToSendRequest (External ''connection refused'')))))
   \<and> length (filter isSendRequest
        (snd (getAIResponseWithRetry jsonUnmarshal (\<lambda>k. refusedAttempt) briefConversation))) = 3"
  using C5_all_attempts_fail [of "\<lambda>k. refusedAttempt" jsonUnmarshal briefConversation]
  by (simp add: getAIResponse_def maxRetries_def)

text \<open>
  C8. The context is done while the dispatcher waits for the rate limiter at its
  attempt \<open>k\<close> (the attempts before it were admitted and failed): the dispatcher
  returns the empty string and the error of the context; no request is sent beyond
  the \<open>k\<close> of the attempts before, and nothing is done after them (each of them left
  four effects: the request, two lines of the log and the sleep).
\<close>

theorem C8_cancelled_while_waiting:
  assumes "k < maxRetries" and "selected (env k) = CtxDone ctxErr"
    and "\<forall>j<k. selected (env j) = Tick \<and> snd (getAIResponse um (sent (env j))) \<noteq> None"
  shows "fst (getAIResponseWithRetry um env c) = ([], Some ctxErr)
    \<and> length (filter isSendRequest (snd (getAIResponseWithRetry um env c))) = k
    \<and> length (snd (getAIResponseWithRetry um env c)) = 4 * k"
proof -
  have k: "k = 0 \<or> k = Suc 0 \<or> k = Suc (Suc 0)"
    using assms(1) by (auto simp: maxRetries_def)
  have f: "selected (env j) = Tick \<and> (\<exists>r e. getAIResponse um (sent (env j)) = (r, Some e))"
    if "j < k" for j
    using that assms(3) failed_attempt [of um "sent (env j)"] by auto
  from k show ?thesis
  proof (elim disjE)
    assume "k = 0"
    then show ?thesis
      using assms(2) unfolding getAIResponseWithRetry_def
      by (simp add: retryLoop_cancelled maxRetries_def)
  next
    assume k1: "k = Suc 0"
    from f [of 0] k1 obtain r0 e0 where "selected (env 0) = Tick"
      "getAIResponse um (sent (env 0)) = (r0, Some e0)"
      by auto
    then show ?thesis
      using assms(2) k1 unfolding getAIResponseWithRetry_def
      by (simp add: retryLoop_failed retryLoop_cancelled maxRetries_def)
  next
    assume k2: "k = Suc (Suc 0)"
    from f [of 0] k2 obtain r0 e0 where a0: "selected (env 0) = Tick"
      "getAIResponse um (sent (env 0)) = (r0, Some e0)"
      by auto
    from f [of "Suc 0"] k2 obtain r1 e1 where a1: "selected (env (Suc 0)) = Tick"
      "getAIResponse um (sent (env (Suc 0))) = (r1, Some e1)"
      by auto
    show ?thesis
      using assms(2) k2 a0 a1 unfolding getAIResponseWithRetry_def
      by (simp add: retryLoop_failed retryLoop_cancelled maxRetries_def)
  qed
qed

theorem C8_witness:
  "fst (getAIResponseWithRetry jsonUnmarshal
          (\<lambda>j. if j = 0 then refusedAttempt
                else \<lparr>selected = CtxDone Canceled, sent = Inl Canceled, jitter = 0\<rparr>)
          briefConversation) = ([], Some Canceled)
   \<and> length (filter isSendRequest
        (snd (getAIResponseWithRetry jsonUnmarshal
               (\<lambda>j. if j = 0 then refusedAttempt
                     else \<lparr>selected = CtxDone Canceled, sent = Inl Canceled, jitter = 0\<rparr>)
               briefConversation))) = 1"
  using C8_cancelled_while_waiting [of 1
      "\<lambda>j. if j = 0 then refusedAttempt
            else \<lparr>selected = CtxDone Canceled, sent = Inl Canceled, jitter = 0\<rparr>"
      Canceled jsonUnmarshal briefConversation]
  by (simp add: getAIResponse_def maxRetries_def)

section \<open>The commands of the chat loop\<close>

lemma trimRunes_keeps_tail:
  assumes "q \<noteq> []" and "\<forall>r\<in>set runes. hd q \<notin> set r"
  shows "\<exists>x'. trimRunes runes (x @ q) = x' @ q"
proof (induction "length x" arbitrary: x rule: less_induct)
  case less
  show ?case
  proof (cases "0 < runeWidth runes (x @ q)")
    case False
    then have "trimRunes runes (x @ q) = x @ q"
      by (subst trimRunes.simps) simp
    then show ?thesis by blast
  next
    case True
    let ?w = "runeWidth runes (x @ q)"
    have w: "take ?w (x @ q) \<in> set runes" "?w \<le> length (x @ q)"
      using runeWidth_pos [OF True] by simp_all
    have le: "?w \<le> length x"
    proof (rule ccontr)
      assume "\<not> ?w \<le> length x"
      then have lt: "length x < ?w"
        by simp
      have "take ?w (x @ q) ! length x = (x @ q) ! length x"
        using lt by (rule nth_take)
      also have "\<dots> = hd q"
        using assms(1) by (simp add: hd_conv_nth nth_append)
      finally have "hd q = take ?w (x @ q) ! length x"
        by simp
      moreover have "length x < length (take ?w (x @ q))"
        using lt w(2) by simp
      ultimately have "hd q \<in> set (take ?w (x @ q))"
        using nth_mem by metis
      then show False
        using assms(2) w(1) by blast
    qed
    have shorter: "length (drop ?w x) < length x"
      using le True by simp
    have "trimRunes runes (x @ q) = trimRunes runes (drop ?w x @ q)"
      using True le by (subst trimRunes.simps) simp
    then show ?thesis
      using less [OF shorter] by simp
  qed
qed

lemma TrimSpace_keeps_prefix:
  assumes "p \<noteq> []" and "\<forall>r\<in>set spaceRunes. hd p \<notin> set r \<and> last p \<notin> set r"
    and "HasPrefix s p"
  shows "HasPrefix (TrimSpace s) p"
proof -
  obtain r where s: "s = p @ r"
    using assms(3) append_take_drop_id [of "length p" s] unfolding HasPrefix_def by metis
  have "runeWidth spaceRunes (p @ r) = 0"
    unfolding runeWidth_zero_iff
  proof (intro ballI)
    fix rn assume rn: "rn \<in> set spaceRunes"
    show "rn = [] \<or> take (length rn) (p @ r) \<noteq> rn"
    proof (rule ccontr)
      assume "\<not> (rn = [] \<or> take (length rn) (p @ r) \<noteq> rn)"
      then have n: "rn \<noteq> []" and t: "take (length rn) (p @ r) = rn"
        by simp_all
      have "hd (take (length rn) (p @ r)) = hd p"
        using assms(1) n by (cases p; cases rn) simp_all
      then have "hd p \<in> set rn"
        using t n by (metis hd_in_set)
      then show False
        using assms(2) rn by blast
    qed
  qed
  then have front: "trimRunes spaceRunes s = s"
    unfolding s by (subst trimRunes.simps) simp
  have "\<forall>rr\<in>set (map rev spaceRunes). hd (rev p) \<notin> set rr"
    using assms(1,2) by (auto simp: hd_rev)
  then obtain x' where "trimRunes (map rev spaceRunes) (rev r @ rev p) = x' @ rev p"
    using trimRunes_keeps_tail [of "rev p" "map rev spaceRunes" "rev r"] assms(1) by auto
  then have "TrimSpace s = p @ rev x'"
    using front by (simp add: TrimSpace_def s)
  then show ?thesis
    by (simp add: HasPrefix_def)
qed

lemma command_is_not_exit:
  assumes "HasPrefix u (CHR ''/'' # p)"
  shows "\<not> EqualFold u exitCommand \<and> u \<noteq> []"
proof -
  obtain r where "u = CHR ''/'' # r"
    using assms unfolding HasPrefix_def by (cases u) auto
  then show ?thesis
    by (simp add: EqualFold_def exitCommand_def toLower_def)
qed

lemma save_leaves_conversation:
  "filter isSendRequest (effects (handleSaveCommand env sc c [PrintPrompt])) = []
   \<and> conv (handleSaveCommand env sc c [PrintPrompt]) = c
   \<and> ret (handleSaveCommand env sc c [PrintPrompt]) = None"
  by (auto simp: handleSaveCommand_def saveConversation_def split: option.splits prod.splits)

lemma load_keeps_or_replaces:
  "filter isSendRequest (effects (handleLoadCommand env u sc c [PrintPrompt])) = []
   \<and> ret (handleLoadCommand env u sc c [PrintPrompt]) = None
   \<and> (conv (handleLoadCommand env u sc c [PrintPrompt]) = c
      \<or> (\<exists>loaded. loadConversation (readFile env) (unmarshalHistory env) (SplitN2 u ! 1)
                     = Inr loaded
            \<and> conv (handleLoadCommand env u sc c [PrintPrompt]) = replaceWith c loaded))"
  by (auto simp: handleLoadCommand_def printConversationSummary_def Let_def split: sum.splits)

text \<open>
  C9. A line of input that begins with \<open>/save\<close> is handled by
  \<^verbatim>\<open>handleSaveCommand\<close>, whatever follows the five letters, and one that begins with
  \<open>/load\<close> by \<^verbatim>\<open>handleLoadCommand\<close>. Neither sends a request; the save leaves the
  conversation as it is, and the load leaves it as it is or puts the loaded one in
  its place: the line is not appended.
\<close>

theorem C9_commands_match_by_prefix:
  assumes "Scan scanner = (Some text, scanner')"
  shows "(HasPrefix text ''/save'' \<longrightarrow>
            processChatInput env scanner c = handleSaveCommand env scanner' c [PrintPrompt]
            \<and> conv (processChatInput env scanner c) = c
            \<and> ret (processChatInput env scanner c) = None
            \<and> filter isSendRequest (effects (processChatInput env scanner c)) = [])
       \<and> (HasPrefix text ''/load'' \<longrightarrow>
            processChatInput env scanner c
              = handleLoadCommand env (TrimSpace text) scanner' c [PrintPrompt]
            \<and> ret (processChatInput env scanner c) = None
            \<and> filter isSendRequest (effects (processChatInput env scanner c)) = []
            \<and> (conv (processChatInput env scanner c) = c
               \<or> (\<exists>loaded. loadConversation (readFile env) (unmarshalHistory env)
                               (SplitN2 (TrimSpace text) ! 1) = Inr loaded
                     \<and> conv (processChatInput env scanner c) = replaceWith c loaded)))"
proof -
  have gi: "getUserInput scanner = (TrimSpace text, scanner')"
    using assms by (simp add: getUserInput_def)
  have sv: "HasPrefix text ''/save'' \<Longrightarrow> HasPrefix (TrimSpace text) ''/save''"
    by (rule TrimSpace_keeps_prefix) (simp_all add: spaceRunes_def)
  have ld: "HasPrefix text ''/load'' \<Longrightarrow> HasPrefix (TrimSpace text) ''/load''"
    by (rule TrimSpace_keeps_prefix) (simp_all add: spaceRunes_def)
  have nsv: "HasPrefix (TrimSpace text) ''/load'' \<Longrightarrow> \<not> HasPrefix (TrimSpace text) ''/save''"
    by (auto simp: HasPrefix_def dest: arg_cong [where f = "take 2"])
  have s: "HasPrefix text ''/save'' \<Longrightarrow>
      processChatInput env scanner c = handleSaveCommand env scanner' c [PrintPrompt]"
    using sv command_is_not_exit [of "TrimSpace text" "''save''"]
    by (simp add: processChatInput_def gi)
  have l: "HasPrefix text ''/load'' \<Longrightarrow>
      processChatInput env scanner c
        = handleLoadCommand env (TrimSpace text) scanner' c [PrintPrompt]"
    using ld nsv command_is_not_exit [of "TrimSpace text" "''load''"]
    by (simp add: processChatInput_def gi)
  show ?thesis
    using s l save_leaves_conversation [of env scanner' c]
      load_keeps_or_replaces [of env "TrimSpace text" scanner' c]
    by simp
qed

theorem C9_witness:
  "Scan (NewScanner \<lparr>bytes = ''/savefoo'' @ [CHR 0x0A], readErr = None\<rparr>)
     = (Some ''/savefoo'', \<lparr>pending = [], srcErr = None, scanErr = None\<rparr>)
   \<and> HasPrefix ''/savefoo'' ''/save''
   \<and> processChatInput quietTurn
        (NewScanner \<lparr>bytes = ''/savefoo'' @ [CHR 0x0A], readErr = None\<rparr>) briefConversation
      = \<lparr>ret = None, stdin = \<lparr>pending = [], srcErr = None, scanErr = None\<rparr>,
         conv = briefConversation,
         effects = [PrintPrompt, WriteFile 0 (History briefConversation), PrintSaved 0]\<rparr>
   \<and> Scan (NewScanner \<lparr>bytes = ''/load talk.json'' @ [CHR 0x0A], readErr = None\<rparr>)
      = (Some ''/load talk.json'', \<lparr>pending = [], srcErr = None, scanErr = None\<rparr>)
   \<and> HasPrefix ''/load talk.json'' ''/load''
   \<and> processChatInput quietTurn
        (NewScanner \<lparr>bytes = ''/load talk.json'' @ [CHR 0x0A], readErr = None\<rparr>)
        briefConversation
      = \<lparr>ret = None, stdin = \<lparr>pending = [], srcErr = None, scanErr = None\<rparr>,
         conv = briefConversation,
         effects = [PrintPrompt,
                    PrintErrorLoading (FailedToReadConversationFile (External ''no such file''))]\<rparr>"
proof -
  have s1: "Scan (NewScanner \<lparr>bytes = ''/savefoo'' @ [CHR 0x0A], readErr = None\<rparr>)
     = (Some ''/savefoo'', \<lparr>pending = [], srcErr = None, scanErr = None\<rparr>)"
    by (simp add: Scan_def NewScanner_def Let_def MaxScanTokenSize_def dropCR_def)
  have s2: "Scan (NewScanner \<lparr>bytes = ''/load talk.json'' @ [CHR 0x0A], readErr = None\<rparr>)
      = (Some ''/load talk.json'', \<lparr>pending = [], srcErr = None, scanErr = None\<rparr>)"
    by (simp add: Scan_def NewScanner_def Let_def MaxScanTokenSize_def dropCR_def)
  have t: "TrimSpace ''/load talk.json'' = ''/load talk.json''"
    by (rule trimmed_examples)
  show ?thesis
    using s1 s2 C9_commands_match_by_prefix [OF s1, of quietTurn briefConversation]
      C9_commands_match_by_prefix [OF s2, of quietTurn briefConversation]
    by (simp add: HasPrefix_def handleSaveCommand_def saveConversation_def getHistory_def
          handleLoadCommand_def SplitN2_def loadConversation_def Let_def t)
qed

text \<open>
  C10. When \<^verbatim>\<open>Scan\<close> returns false (the input is at its end, the read failed or a
  line is too long), \<^verbatim>\<open>getUserInput\<close> returns \<open>exit\<close>: \<^verbatim>\<open>processChatInput\<close> prints
  the goodbye and returns \<^verbatim>\<open>io.EOF\<close> with the conversation as it was, as it does for
  a typed line \<open>exit\<close>, and the loop returns without a further turn. A reader with no
  bytes left, ended or failed, is such an input.
\<close>

theorem C10_input_failure_is_exit:
  assumes "fst (Scan scanner) = None"
  shows "fst (getUserInput scanner) = exitCommand
    \<and> processChatInput env scanner c
        = \<lparr>ret = Some EOF, stdin = snd (Scan scanner), conv = c,
           effects = [PrintPrompt, PrintGoodbye]\<rparr>
    \<and> (ctxDone (envs n) = None \<longrightarrow>
         processChatInputLoop envs n scanner c tr = (None, c, tr @ [PrintPrompt, PrintGoodbye]))
    \<and> (Scan typed = (Some ''exit'', typed') \<longrightarrow>
         processChatInput env typed c
           = \<lparr>ret = Some EOF, stdin = typed', conv = c, effects = [PrintPrompt, PrintGoodbye]\<rparr>)
    \<and> fst (Scan (NewScanner \<lparr>bytes = [], readErr = e\<rparr>)) = None"
proof -
  obtain s' where sc: "Scan scanner = (None, s')"
    using assms by (cases "Scan scanner") auto
  have gi: "getUserInput scanner = (exitCommand, s')"
    by (simp add: getUserInput_def sc)
  have ef: "EqualFold exitCommand exitCommand" "exitCommand \<noteq> []"
    by (simp_all add: EqualFold_def exitCommand_def)
  have p: "processChatInput env scanner c
        = \<lparr>ret = Some EOF, stdin = s', conv = c, effects = [PrintPrompt, PrintGoodbye]\<rparr>"
    for env
    by (simp add: processChatInput_def gi ef)
  have l: "ctxDone (envs n) = None \<Longrightarrow>
         processChatInputLoop envs n scanner c tr = (None, c, tr @ [PrintPrompt, PrintGoodbye])"
    by (subst processChatInputLoop.simps) (simp add: p Let_def)
  have t: "Scan typed = (Some ''exit'', typed') \<Longrightarrow>
         processChatInput env typed c
           = \<lparr>ret = Some EOF, stdin = typed', conv = c, effects = [PrintPrompt, PrintGoodbye]\<rparr>"
    by (simp add: processChatInput_def getUserInput_def trimmed_examples
          EqualFold_def exitCommand_def)
  have z: "fst (Scan (NewScanner \<lparr>bytes = [], readErr = e\<rparr>)) = None"
    by (simp add: Scan_def NewScanner_def Let_def MaxScanTokenSize_def)
  show ?thesis
    using gi p l t z sc by simp
qed

theorem C10_witness:
  "fst (Scan (NewScanner \<lparr>bytes = [], readErr = Some (External ''input closed'')\<rparr>)) = None
   \<and> processChatInput quietTurn
        (NewScanner \<lparr>bytes = [], readErr = Some (External ''input closed'')\<rparr>) briefConversation
      = \<lparr>ret = Some EOF,
         stdin = \<lparr>pending = [], srcErr = Some (External ''input closed''),
                  scanErr = Some (External ''input closed'')\<rparr>,
         conv = briefConversation, effects = [PrintPrompt, PrintGoodbye]\<rparr>
   \<and> processChatInputLoop (\<lambda>n. quietTurn) 0
        (NewScanner \<lparr>bytes = [], readErr = Some (External ''input closed'')\<rparr>)
        briefConversation []
      = (None, briefConversation, [PrintPrompt, PrintGoodbye])
   \<and> processChatInput quietTurn
        (NewScanner \<lparr>bytes = ''exit'' @ [CHR 0x0A], readErr = None\<rparr>) briefConversation
      = \<lparr>ret = Some EOF, stdin = \<lparr>pending = [], srcErr = None, scanErr = None\<rparr>,
         conv = briefConversation, effects = [PrintPrompt, PrintGoodbye]\<rparr>"
proof -
  have z: "fst (Scan (NewScanner \<lparr>bytes = [], readErr = Some (External ''input closed'')\<rparr>))
      = None"
    by (simp add: Scan_def NewScanner_def Let_def MaxScanTokenSize_def)
  have s: "Scan (NewScanner \<lparr>bytes = [], readErr = Some (External ''input closed'')\<rparr>)
      = (None, \<lparr>pending = [], srcErr = Some (External ''input closed''),
                scanErr = Some (External ''input closed'')\<rparr>)"
    by (simp add: Scan_def NewScanner_def Let_def MaxScanTokenSize_def)
  have x: "Scan (NewScanner \<lparr>bytes = ''exit'' @ [CHR 0x0A], readErr = None\<rparr>)
      = (Some ''exit'', \<lparr>pending = [], srcErr = None, scanErr = None\<rparr>)"
    by (simp add: Scan_def NewScanner_def Let_def MaxScanTokenSize_def dropCR_def)
  show ?thesis
    using z s x
      C10_input_failure_is_exit [OF z, where env = quietTurn and c = briefConversation
        and envs = "\<lambda>n. quietTurn" and n = 0 and tr = "[]"
        and typed = "NewScanner \<lparr>bytes = ''exit'' @ [CHR 0x0A], readErr = None\<rparr>"
        and typed' = "\<lparr>pending = [], srcErr = None, scanErr = None\<rparr>" and e = None]
    by simp
qed

end
